theory Spec2Isabelle
  imports Main "HOL-Library.Word" "HOL-Library.Multiset" "HOL-Library.Monad_Syntax"
begin

unbundle bit_operations_syntax

section \<open>The V4L2 video source of PlusLib\<close>

text \<open>
  A shallow embedding of \<^verbatim>\<open>src/PlusDataCollection/V4L2/vtkPlusV4L2VideoSource.cxx\<close>:
  the class members are a record, each member function is a function from the session and
  the world to a status, the new session and the new world.

  The class talks to the kernel and to the C library. What they answer is not decided by
  the program, so the world carries a script: the answers to the coming calls, in order.
  Every call takes the next answer of the script and is written, with its answer, to the
  list of events. A function has no result (\<open>None\<close>) when the script ends before the
  function does, when an answer does not fit the call it answers, and when the source
  would read or free memory it does not own (undefined behaviour in C++).
\<close>

subsection \<open>Values of the C interface\<close>

type_synonym u32 = "32 word"
type_synonym pointer = "64 word"

definition NULL :: pointer where
  "NULL = 0"

definition MAP_FAILED :: pointer where
  "MAP_FAILED = - 1"

text \<open>The error numbers the source names, and any other one by its value.\<close>

datatype errno = EINTR | EAGAIN | EIO | EINVAL | ERRNO nat

text \<open>Constants of \<^verbatim>\<open>linux/videodev2.h\<close>.\<close>

definition V4L2_CAP_VIDEO_CAPTURE :: u32 where
  "V4L2_CAP_VIDEO_CAPTURE = 0x00000001"

definition V4L2_CAP_READWRITE :: u32 where
  "V4L2_CAP_READWRITE = 0x01000000"

definition V4L2_CAP_STREAMING :: u32 where
  "V4L2_CAP_STREAMING = 0x04000000"

definition V4L2_BUF_TYPE_VIDEO_CAPTURE :: u32 where
  "V4L2_BUF_TYPE_VIDEO_CAPTURE = 1"

definition V4L2_MEMORY_MMAP :: u32 where
  "V4L2_MEMORY_MMAP = 1"

definition V4L2_MEMORY_USERPTR :: u32 where
  "V4L2_MEMORY_USERPTR = 2"

definition V4L2_PIX_FMT_YUYV :: u32 where
  "V4L2_PIX_FMT_YUYV = 0x56595559"

definition V4L2_FIELD_INTERLACED :: u32 where
  "V4L2_FIELD_INTERLACED = 4"

datatype request =
    VIDIOC_QUERYCAP | VIDIOC_ENUM_FMT | VIDIOC_CROPCAP | VIDIOC_S_CROP
  | VIDIOC_G_FMT | VIDIOC_S_FMT | VIDIOC_REQBUFS | VIDIOC_QUERYBUF
  | VIDIOC_QBUF | VIDIOC_DQBUF | VIDIOC_STREAMON | VIDIOC_STREAMOFF

text \<open>
  The structures handed to \<^verbatim>\<open>ioctl\<close>, with the fields this class reads or writes.
  The members \<^verbatim>\<open>m.offset\<close> and \<^verbatim>\<open>m.userptr\<close> of \<^verbatim>\<open>v4l2_buffer\<close> are two fields here;
  the source uses one of them per transport mode.
\<close>

record v4l2_pix_format =
  width :: u32
  height :: u32
  pixelformat :: u32
  field :: u32
  bytesperline :: u32
  sizeimage :: u32

record v4l2_format =
  type' :: u32
  pix :: v4l2_pix_format

record v4l2_requestbuffers =
  count' :: nat
  rtype :: u32
  rmemory :: u32

record v4l2_buffer =
  index :: nat
  btype :: u32
  memory :: u32
  blength :: nat
  m_offset :: nat
  m_userptr :: pointer

type_synonym v4l2_rect = "int \<times> int \<times> u32 \<times> u32"

datatype arg =
    Capability u32
  | FmtDesc nat
  | Cropcap v4l2_rect
  | Crop v4l2_rect
  | Format v4l2_format
  | RequestBuffers v4l2_requestbuffers
  | Buffer v4l2_buffer
  | BufType u32

subsection \<open>Errors\<close>

text \<open>
  One value for each place where the source returns \<^verbatim>\<open>PLUS_FAIL\<close> or calls
  \<^verbatim>\<open>LOG_ERROR\<close>, with the error number where the message prints it:
  \<^item> \<open>DeviceNotFound\<close>: \<^verbatim>\<open>stat\<close> fails, or the path is no character device;
  \<^item> \<open>OpenFailed\<close>: \<^verbatim>\<open>open\<close> fails;
  \<^item> \<open>IoctlFailed\<close>: a device-control request fails (the request and \<^verbatim>\<open>errno\<close>);
  \<^item> \<open>NotACaptureDevice\<close>: no \<^verbatim>\<open>V4L2_CAP_VIDEO_CAPTURE\<close>;
  \<^item> \<open>UnsupportedTransport\<close>: "does not support read i/o" or "streaming i/o";
  \<^item> \<open>InsufficientBuffers\<close>: "Insufficient buffer memory";
  \<^item> \<open>OutOfMemory\<close>: \<^verbatim>\<open>calloc\<close> or \<^verbatim>\<open>malloc\<close> returns null;
  \<^item> \<open>MmapFailed\<close>, \<open>MunmapFailed\<close>, \<open>CloseFailed\<close>, \<open>ReadFailed\<close>: the call fails;
  \<^item> \<open>PollError\<close>: \<^verbatim>\<open>select\<close> fails; \<open>PollTimeout\<close>: "Select timeout.";
  \<^item> \<open>AcquireRecoverable\<close>: the \<^verbatim>\<open>EAGAIN\<close> branch of \<^verbatim>\<open>ReadFrame\<close>, which returns
    \<^verbatim>\<open>PLUS_FAIL\<close> without a message;
  \<^item> \<open>UnknownIOMethod\<close>: the \<^verbatim>\<open>default\<close> branch of \<^verbatim>\<open>InternalConnect\<close>.
\<close>

datatype error =
    DeviceNotFound
  | OpenFailed errno
  | IoctlFailed request errno
  | NotACaptureDevice
  | UnsupportedTransport
  | InsufficientBuffers
  | OutOfMemory
  | MmapFailed errno
  | MunmapFailed errno
  | CloseFailed errno
  | PollError errno
  | PollTimeout
  | AcquireRecoverable
  | ReadFailed errno
  | UnknownIOMethod

type_synonym status = "error + unit"

datatype PlusStatus = PLUS_FAIL | PLUS_SUCCESS

definition PlusStatus_of :: "status \<Rightarrow> PlusStatus" where
  "PlusStatus_of r = (case r of Inl e \<Rightarrow> PLUS_FAIL | Inr u \<Rightarrow> PLUS_SUCCESS)"

subsection \<open>The world: script, events and resources\<close>

datatype call =
    Stat string
  | Open string
  | Ioctl int request arg
  | Calloc nat
  | Malloc nat
  | Free pointer
  | Mmap nat int nat
  | Munmap pointer nat
  | Close int
  | Select int nat
  | Read int pointer nat

datatype answer =
    Fails errno
  | Returns nat
  | Pointer pointer
  | Fills arg
  | CharDevice bool
  | Void

text \<open>
  \<open>heap\<close> are the live blocks of \<^verbatim>\<open>malloc\<close> and \<^verbatim>\<open>calloc\<close>, \<open>mappings\<close> the live
  regions of \<^verbatim>\<open>mmap\<close>, \<open>descriptors\<close> the open file descriptors, \<open>logged\<close> the
  \<^verbatim>\<open>LOG_ERROR\<close> messages, \<open>sink\<close> the frames added to the output channel's buffer.
\<close>

record frame =
  frame_bytes :: pointer
  frame_width :: u32
  frame_height :: u32
  frame_encoding :: u32
  frame_number :: nat

record world =
  script :: "answer list"
  events :: "(call \<times> answer) list"
  logged :: "error list"
  heap :: "pointer multiset"
  mappings :: "(pointer \<times> nat) multiset"
  descriptors :: "int multiset"
  sink :: "frame list"

definition LOG_ERROR :: "error \<Rightarrow> world \<Rightarrow> world" where
  "LOG_ERROR e w = w\<lparr>logged := logged w @ [e]\<rparr>"

definition syscall :: "call \<Rightarrow> world \<Rightarrow> (answer \<times> world) option" where
  "syscall c w =
     (case script w of
        [] \<Rightarrow> None
      | a # rest \<Rightarrow> Some (a, w\<lparr>script := rest, events := events w @ [(c, a)]\<rparr>))"

definition stat_call :: "string \<Rightarrow> world \<Rightarrow> ((errno + bool) \<times> world) option" where
  "stat_call path w =
     (case syscall (Stat path) w of
        None \<Rightarrow> None
      | Some (a, w') \<Rightarrow>
          (case a of
             Fails e \<Rightarrow> Some (Inl e, w')
           | CharDevice b \<Rightarrow> Some (Inr b, w')
           | _ \<Rightarrow> None))"

definition open_call :: "string \<Rightarrow> world \<Rightarrow> ((errno + int) \<times> world) option" where
  "open_call path w =
     (case syscall (Open path) w of
        None \<Rightarrow> None
      | Some (a, w') \<Rightarrow>
          (case a of
             Fails e \<Rightarrow> Some (Inl e, w')
           | Returns fd \<Rightarrow>
               Some (Inr (int fd), w'\<lparr>descriptors := add_mset (int fd) (descriptors w')\<rparr>)
           | _ \<Rightarrow> None))"

definition close_call :: "int \<Rightarrow> world \<Rightarrow> ((errno + unit) \<times> world) option" where
  "close_call fd w =
     (case syscall (Close fd) w of
        None \<Rightarrow> None
      | Some (a, w') \<Rightarrow>
          (case a of
             Fails e \<Rightarrow> Some (Inl e, w')
           | Returns n \<Rightarrow> Some (Inr (), w'\<lparr>descriptors := descriptors w' - {#fd#}\<rparr>)
           | _ \<Rightarrow> None))"

definition ioctl :: "int \<Rightarrow> request \<Rightarrow> arg \<Rightarrow> world \<Rightarrow> ((errno + arg) \<times> world) option" where
  "ioctl fh rq a w =
     (case syscall (Ioctl fh rq a) w of
        None \<Rightarrow> None
      | Some (x, w') \<Rightarrow>
          (case x of
             Fails e \<Rightarrow> Some (Inl e, w')
           | Fills a' \<Rightarrow> Some (Inr a', w')
           | _ \<Rightarrow> None))"

definition calloc_call :: "nat \<Rightarrow> world \<Rightarrow> (pointer \<times> world) option" where
  "calloc_call n w =
     (case syscall (Calloc n) w of
        None \<Rightarrow> None
      | Some (a, w') \<Rightarrow>
          (case a of
             Pointer p \<Rightarrow>
               if p = NULL then Some (p, w') else Some (p, w'\<lparr>heap := add_mset p (heap w')\<rparr>)
           | _ \<Rightarrow> None))"

definition malloc_call :: "nat \<Rightarrow> world \<Rightarrow> (pointer \<times> world) option" where
  "malloc_call n w =
     (case syscall (Malloc n) w of
        None \<Rightarrow> None
      | Some (a, w') \<Rightarrow>
          (case a of
             Pointer p \<Rightarrow>
               if p = NULL then Some (p, w') else Some (p, w'\<lparr>heap := add_mset p (heap w')\<rparr>)
           | _ \<Rightarrow> None))"

text \<open>\<^verbatim>\<open>free\<close> returns nothing and takes no answer. Freeing null does nothing; freeing
  a block that is not live is undefined.\<close>

definition free_call :: "pointer \<Rightarrow> world \<Rightarrow> world option" where
  "free_call p w =
     (if p = NULL then Some (w\<lparr>events := events w @ [(Free p, Void)]\<rparr>)
      else if p \<in># heap w
        then Some (w\<lparr>events := events w @ [(Free p, Void)], heap := heap w - {#p#}\<rparr>)
        else None)"

definition mmap_call :: "nat \<Rightarrow> int \<Rightarrow> nat \<Rightarrow> world \<Rightarrow> ((errno + pointer) \<times> world) option" where
  "mmap_call len fd off w =
     (case syscall (Mmap len fd off) w of
        None \<Rightarrow> None
      | Some (a, w') \<Rightarrow>
          (case a of
             Fails e \<Rightarrow> Some (Inl e, w')
           | Pointer p \<Rightarrow>
               if p = MAP_FAILED then None
               else Some (Inr p, w'\<lparr>mappings := add_mset (p, len) (mappings w')\<rparr>)
           | _ \<Rightarrow> None))"

text \<open>\<^verbatim>\<open>munmap\<close> wants an address on a page boundary, which \<^verbatim>\<open>MAP_FAILED\<close> is not: for
  that address it can only fail.\<close>

definition munmap_call :: "pointer \<Rightarrow> nat \<Rightarrow> world \<Rightarrow> ((errno + unit) \<times> world) option" where
  "munmap_call p len w =
     (case syscall (Munmap p len) w of
        None \<Rightarrow> None
      | Some (a, w') \<Rightarrow>
          (case a of
             Fails e \<Rightarrow> Some (Inl e, w')
           | Returns n \<Rightarrow>
               if p = MAP_FAILED then None
               else Some (Inr (), w'\<lparr>mappings := mappings w' - {#(p, len)#}\<rparr>)
           | _ \<Rightarrow> None))"

definition select_call :: "int \<Rightarrow> nat \<Rightarrow> world \<Rightarrow> ((errno + nat) \<times> world) option" where
  "select_call fd seconds w =
     (case syscall (Select fd seconds) w of
        None \<Rightarrow> None
      | Some (a, w') \<Rightarrow>
          (case a of
             Fails e \<Rightarrow> Some (Inl e, w')
           | Returns n \<Rightarrow> Some (Inr n, w')
           | _ \<Rightarrow> None))"

definition read_call :: "int \<Rightarrow> pointer \<Rightarrow> nat \<Rightarrow> world \<Rightarrow> ((errno + nat) \<times> world) option" where
  "read_call fd buf len w =
     (case syscall (Read fd buf len) w of
        None \<Rightarrow> None
      | Some (a, w') \<Rightarrow>
          (case a of
             Fails e \<Rightarrow> Some (Inl e, w')
           | Returns n \<Rightarrow> Some (Inr n, w')
           | _ \<Rightarrow> None))"

subsection \<open>\<^verbatim>\<open>xioctl\<close>\<close>

text \<open>
  \<^verbatim>\<open>do { r = ioctl(fh, request, arg); } while (-1 == r && EINTR == errno); return r;\<close>
\<close>

function xioctl :: "int \<Rightarrow> request \<Rightarrow> arg \<Rightarrow> world \<Rightarrow> ((errno + arg) \<times> world) option" where
  "xioctl fh rq a w =
     (case ioctl fh rq a w of
        None \<Rightarrow> None
      | Some (r, w') \<Rightarrow> if r = Inl EINTR then xioctl fh rq a w' else Some (r, w'))"
  by pat_completeness auto
termination
  by (relation "measure (\<lambda>(fh, rq, a, w). length (script w))")
     (auto simp: ioctl_def syscall_def split: list.splits answer.splits)

declare xioctl.simps [simp del]

subsection \<open>The class members\<close>

datatype V4L2_IO_METHOD =
  IO_METHOD_READ | IO_METHOD_MMAP | IO_METHOD_USERPTR | IO_METHOD_UNKNOWN

record FrameBuffer =
  start :: pointer
  length' :: nat

text \<open>
  \<open>Frames\<close> is the pointer to the array of frame buffers and \<open>FramesArray\<close> the array it
  points to. \<open>FrameNumber\<close> is a member of the base class \<^verbatim>\<open>vtkPlusDevice\<close>.

  Modelled from the spec: the declaration of \<open>FrameNumber\<close> is not among the sources; it
  is the "monotonically increasing counter" of the data model, a natural number here.
\<close>

record session =
  DeviceName :: string
  IOMethod :: V4L2_IO_METHOD
  FileDescriptor :: int
  Frames :: pointer
  FramesArray :: "FrameBuffer list"
  BufferCount :: nat
  ForceFormat :: bool
  RequestedFormat :: v4l2_format
  FrameNumber :: nat

text \<open>The session as the constructor and the member initialisers leave it.\<close>

definition vtkPlusV4L2VideoSource :: session where
  "vtkPlusV4L2VideoSource =
     \<lparr>DeviceName = '''', IOMethod = IO_METHOD_READ, FileDescriptor = - 1, Frames = NULL,
      FramesArray = [], BufferCount = 0, ForceFormat = False,
      RequestedFormat = \<lparr>type' = 0, pix = \<lparr>width = 0, height = 0, pixelformat = 0,
        field = 0, bytesperline = 0, sizeimage = 0\<rparr>\<rparr>,
      FrameNumber = 0\<rparr>"

text \<open>\<^verbatim>\<open>this->Frames[i]\<close>: reading or writing outside the allocated array is undefined.\<close>

definition frame_at :: "session \<Rightarrow> nat \<Rightarrow> FrameBuffer option" where
  "frame_at s i = (if i < length (FramesArray s) then Some (FramesArray s ! i) else None)"

definition store_frame :: "nat \<Rightarrow> FrameBuffer \<Rightarrow> session \<Rightarrow> session option" where
  "store_frame i fb s =
     (if i < length (FramesArray s) then Some (s\<lparr>FramesArray := (FramesArray s)[i := fb]\<rparr>)
      else None)"

text \<open>What \<^verbatim>\<open>calloc(n, sizeof(FrameBuffer))\<close> leaves at the returned address.\<close>

definition zeroed :: "pointer \<Rightarrow> nat \<Rightarrow> FrameBuffer list" where
  "zeroed p n = (if p = NULL then [] else replicate n \<lparr>start = NULL, length' = 0\<rparr>)"

text \<open>\<^verbatim>\<open>LOG_ERROR(...); return PLUS_FAIL;\<close>\<close>

definition fail :: "error \<Rightarrow> session \<Rightarrow> world \<Rightarrow> (status \<times> session \<times> world) option" where
  "fail e s w = Some (Inl e, s, LOG_ERROR e w)"

subsection \<open>\<^verbatim>\<open>PrintSelf\<close>\<close>

text \<open>
  \<^verbatim>\<open>while (ioctl(this->FileDescriptor, VIDIOC_ENUM_FMT, &fmtdesc) == 0) { ...; fmtdesc.index++; }\<close>
  What is written to the stream is not modelled.
\<close>

function enumerate_formats :: "int \<Rightarrow> nat \<Rightarrow> world \<Rightarrow> world option" where
  "enumerate_formats fd i w =
     (case ioctl fd VIDIOC_ENUM_FMT (FmtDesc i) w of
        None \<Rightarrow> None
      | Some (r, w') \<Rightarrow>
          (case r of
             Inl e \<Rightarrow> Some w'
           | Inr a \<Rightarrow>
               (case a of
                  FmtDesc j \<Rightarrow> enumerate_formats fd (j + 1) w'
                | _ \<Rightarrow> None)))"
  by pat_completeness auto
termination
  by (relation "measure (\<lambda>(fd, i, w). length (script w))")
     (auto simp: ioctl_def syscall_def split: list.splits answer.splits)

declare enumerate_formats.simps [simp del]

definition PrintSelf :: "session \<Rightarrow> world \<Rightarrow> world option" where
  "PrintSelf s w =
     (if FileDescriptor s \<noteq> - 1 then enumerate_formats (FileDescriptor s) 0 w else Some w)"

subsection \<open>\<^verbatim>\<open>InitRead\<close>, \<^verbatim>\<open>InitMmap\<close>, \<^verbatim>\<open>InitUserp\<close>\<close>

definition InitRead :: "nat \<Rightarrow> session \<Rightarrow> world \<Rightarrow> (status \<times> session \<times> world) option" where
  "InitRead bufferSize s w = do {
     (p, w1) \<leftarrow> calloc_call 1 w;
     let s1 = s\<lparr>Frames := p, FramesArray := zeroed p 1\<rparr>;
     if p = NULL then fail OutOfMemory s1 w1
     else do {
       (q, w2) \<leftarrow> malloc_call bufferSize w1;
       s2 \<leftarrow> store_frame 0 \<lparr>start = q, length' = bufferSize\<rparr> s1;
       if q = NULL then fail OutOfMemory s2 w2
       else Some (Inr (), s2, w2)
     }
   }"

text \<open>
  The loop of \<^verbatim>\<open>InitMmap\<close>:
  \<^verbatim>\<open>for (this->BufferCount = 0; this->BufferCount < req.count; ++this->BufferCount)\<close>.
  A failing \<^verbatim>\<open>mmap\<close> stores \<^verbatim>\<open>MAP_FAILED\<close>, is logged, and the loop goes on.
\<close>

function InitMmap_loop :: "nat \<Rightarrow> session \<Rightarrow> world \<Rightarrow> (status \<times> session \<times> world) option" where
  "InitMmap_loop n s w =
     (if BufferCount s < n then
        (case xioctl (FileDescriptor s) VIDIOC_QUERYBUF
                (Buffer \<lparr>index = BufferCount s, btype = V4L2_BUF_TYPE_VIDEO_CAPTURE,
                   memory = V4L2_MEMORY_MMAP, blength = 0, m_offset = 0, m_userptr = 0\<rparr>) w of
           None \<Rightarrow> None
         | Some (r, w1) \<Rightarrow>
             (case r of
                Inl e \<Rightarrow> fail (IoctlFailed VIDIOC_QUERYBUF e) s w1
              | Inr a \<Rightarrow>
                  (case a of
                     Buffer buf \<Rightarrow>
                       (case mmap_call (blength buf) (FileDescriptor s) (m_offset buf) w1 of
                          None \<Rightarrow> None
                        | Some (m, w2) \<Rightarrow>
                            (case store_frame (BufferCount s)
                                    \<lparr>start = (case m of Inl e \<Rightarrow> MAP_FAILED | Inr p \<Rightarrow> p),
                                     length' = blength buf\<rparr> s of
                               None \<Rightarrow> None
                             | Some s1 \<Rightarrow>
                                 InitMmap_loop n (s1\<lparr>BufferCount := BufferCount s + 1\<rparr>)
                                   (case m of Inl e \<Rightarrow> LOG_ERROR (MmapFailed e) w2
                                            | Inr p \<Rightarrow> w2)))
                   | _ \<Rightarrow> None)))
      else Some (Inr (), s, w))"
  by pat_completeness auto
termination
  by (relation "measure (\<lambda>(n, s, w). n - BufferCount s)")
     (auto simp: store_frame_def split: if_splits)

declare InitMmap_loop.simps [simp del]

definition InitMmap :: "session \<Rightarrow> world \<Rightarrow> (status \<times> session \<times> world) option" where
  "InitMmap s w = do {
     (r, w1) \<leftarrow> xioctl (FileDescriptor s) VIDIOC_REQBUFS
         (RequestBuffers \<lparr>count' = 4, rtype = V4L2_BUF_TYPE_VIDEO_CAPTURE,
            rmemory = V4L2_MEMORY_MMAP\<rparr>) w;
     case r of
       Inl e \<Rightarrow> fail (IoctlFailed VIDIOC_REQBUFS e) s w1
     | Inr a \<Rightarrow>
         (case a of
            RequestBuffers req \<Rightarrow>
              if count' req < 2 then fail InsufficientBuffers s w1
              else do {
                (p, w2) \<leftarrow> calloc_call (count' req) w1;
                let s1 = s\<lparr>Frames := p, FramesArray := zeroed p (count' req)\<rparr>;
                if p = NULL then fail OutOfMemory s1 w2
                else InitMmap_loop (count' req) (s1\<lparr>BufferCount := 0\<rparr>) w2
              }
          | _ \<Rightarrow> None)
   }"

text \<open>
  The loop of \<^verbatim>\<open>InitUserp\<close>:
  \<^verbatim>\<open>for (this->BufferCount = 0; this->BufferCount < 4; ++this->BufferCount)\<close>.
\<close>

function InitUserp_loop :: "nat \<Rightarrow> session \<Rightarrow> world \<Rightarrow> (status \<times> session \<times> world) option" where
  "InitUserp_loop bufferSize s w =
     (if BufferCount s < 4 then
        (case malloc_call bufferSize w of
           None \<Rightarrow> None
         | Some (q, w1) \<Rightarrow>
             (case store_frame (BufferCount s) \<lparr>start = q, length' = bufferSize\<rparr> s of
                None \<Rightarrow> None
              | Some s1 \<Rightarrow>
                  if q = NULL then fail OutOfMemory s1 w1
                  else InitUserp_loop bufferSize (s1\<lparr>BufferCount := BufferCount s + 1\<rparr>) w1))
      else Some (Inr (), s, w))"
  by pat_completeness auto
termination
  by (relation "measure (\<lambda>(b, s, w). 4 - BufferCount s)")
     (auto simp: store_frame_def split: if_splits)

declare InitUserp_loop.simps [simp del]

definition InitUserp :: "nat \<Rightarrow> session \<Rightarrow> world \<Rightarrow> (status \<times> session \<times> world) option" where
  "InitUserp bufferSize s w = do {
     (r, w1) \<leftarrow> xioctl (FileDescriptor s) VIDIOC_REQBUFS
         (RequestBuffers \<lparr>count' = 4, rtype = V4L2_BUF_TYPE_VIDEO_CAPTURE,
            rmemory = V4L2_MEMORY_USERPTR\<rparr>) w;
     case r of
       Inl e \<Rightarrow> fail (IoctlFailed VIDIOC_REQBUFS e) s w1
     | Inr a \<Rightarrow> do {
         (p, w2) \<leftarrow> calloc_call 4 w1;
         let s1 = s\<lparr>Frames := p, FramesArray := zeroed p 4\<rparr>;
         if p = NULL then fail OutOfMemory s1 w2
         else InitUserp_loop bufferSize (s1\<lparr>BufferCount := 0\<rparr>) w2
       }
   }"

subsection \<open>\<^verbatim>\<open>InternalConnect\<close>\<close>

text \<open>
  The function is cut into its stages, last stage first. The second switch on the
  transport mode hands over to the buffer initialisation:
\<close>

definition Connect_buffers :: "session \<Rightarrow> world \<Rightarrow> (status \<times> session \<times> world) option" where
  "Connect_buffers s w =
     (case IOMethod s of
        IO_METHOD_READ \<Rightarrow> InitRead (unat (sizeimage (pix (RequestedFormat s)))) s w
      | IO_METHOD_MMAP \<Rightarrow> InitMmap s w
      | IO_METHOD_USERPTR \<Rightarrow> InitUserp (unat (sizeimage (pix (RequestedFormat s)))) s w
      | IO_METHOD_UNKNOWN \<Rightarrow> Some (Inl UnknownIOMethod, s, w))"

text \<open>
  The format: \<^verbatim>\<open>VIDIOC_G_FMT\<close> fills \<^verbatim>\<open>*RequestedFormat\<close>; width, height, pixel format
  and field are then overwritten ("TODO: set from configuration") and the result is
  handed to \<^verbatim>\<open>VIDIOC_S_FMT\<close>, which fills \<^verbatim>\<open>*RequestedFormat\<close> again. The member
  \<open>ForceFormat\<close> is not read.
\<close>

definition forced :: "v4l2_format \<Rightarrow> v4l2_format" where
  "forced f = f\<lparr>pix := (pix f)\<lparr>width := 640, height := 480,
     pixelformat := V4L2_PIX_FMT_YUYV, field := V4L2_FIELD_INTERLACED\<rparr>\<rparr>"

definition Connect_format :: "session \<Rightarrow> world \<Rightarrow> (status \<times> session \<times> world) option" where
  "Connect_format s w = do {
     (r, w1) \<leftarrow> xioctl (FileDescriptor s) VIDIOC_G_FMT (Format (RequestedFormat s)) w;
     case r of
       Inl e \<Rightarrow> fail (IoctlFailed VIDIOC_G_FMT e) s w1
     | Inr a \<Rightarrow>
         (case a of
            Format queried \<Rightarrow> do {
              let s1 = s\<lparr>RequestedFormat := forced queried\<rparr>;
              (r2, w2) \<leftarrow> xioctl (FileDescriptor s1) VIDIOC_S_FMT (Format (RequestedFormat s1)) w1;
              case r2 of
                Inl e \<Rightarrow> fail (IoctlFailed VIDIOC_S_FMT e) s1 w2
              | Inr a2 \<Rightarrow>
                  (case a2 of
                     Format adjusted \<Rightarrow> Connect_buffers (s1\<lparr>RequestedFormat := adjusted\<rparr>) w2
                   | _ \<Rightarrow> None)
            }
          | _ \<Rightarrow> None)
   }"

text \<open>
  Cropping: when \<^verbatim>\<open>VIDIOC_CROPCAP\<close> succeeds the default rectangle is set with
  \<^verbatim>\<open>VIDIOC_S_CROP\<close>; a failure of either request is ignored.
\<close>

definition Connect_crop :: "session \<Rightarrow> world \<Rightarrow> (status \<times> session \<times> world) option" where
  "Connect_crop s w = do {
     (r, w1) \<leftarrow> xioctl (FileDescriptor s) VIDIOC_CROPCAP (Cropcap (0, 0, 0, 0)) w;
     case r of
       Inl e \<Rightarrow> Connect_format s w1
     | Inr a \<Rightarrow>
         (case a of
            Cropcap defrect \<Rightarrow> do {
              (r2, w2) \<leftarrow> xioctl (FileDescriptor s) VIDIOC_S_CROP (Crop defrect) w1;
              Connect_format s w2
            }
          | _ \<Rightarrow> None)
   }"

text \<open>
  The capabilities. \<open>debug\<close> says whether the source is compiled with \<^verbatim>\<open>_DEBUG\<close>: then
  \<^verbatim>\<open>PrintSelf\<close> runs between the capture test and the switch on the transport mode.
\<close>

definition Connect_capabilities ::
    "bool \<Rightarrow> session \<Rightarrow> world \<Rightarrow> (status \<times> session \<times> world) option" where
  "Connect_capabilities debug s w = do {
     (r, w1) \<leftarrow> xioctl (FileDescriptor s) VIDIOC_QUERYCAP (Capability 0) w;
     case r of
       Inl e \<Rightarrow> fail (IoctlFailed VIDIOC_QUERYCAP e) s w1
     | Inr a \<Rightarrow>
         (case a of
            Capability capabilities \<Rightarrow>
              if capabilities AND V4L2_CAP_VIDEO_CAPTURE = 0 then fail NotACaptureDevice s w1
              else do {
                w2 \<leftarrow> (if debug then PrintSelf s w1 else Some w1);
                case IOMethod s of
                  IO_METHOD_READ \<Rightarrow>
                    if capabilities AND V4L2_CAP_READWRITE = 0
                    then fail UnsupportedTransport s w2
                    else Connect_crop s w2
                | IO_METHOD_MMAP \<Rightarrow>
                    if capabilities AND V4L2_CAP_STREAMING = 0
                    then fail UnsupportedTransport s w2
                    else Connect_crop s w2
                | IO_METHOD_USERPTR \<Rightarrow>
                    if capabilities AND V4L2_CAP_STREAMING = 0
                    then fail UnsupportedTransport s w2
                    else Connect_crop s w2
                | IO_METHOD_UNKNOWN \<Rightarrow> Connect_crop s w2
              }
          | _ \<Rightarrow> None)
   }"

definition InternalConnect ::
    "bool \<Rightarrow> session \<Rightarrow> world \<Rightarrow> (status \<times> session \<times> world) option" where
  "InternalConnect debug s w = do {
     (st, w1) \<leftarrow> stat_call (DeviceName s) w;
     case st of
       Inl e \<Rightarrow> fail DeviceNotFound s w1
     | Inr is_chr \<Rightarrow>
         if \<not> is_chr then fail DeviceNotFound s w1
         else do {
           (fd, w2) \<leftarrow> open_call (DeviceName s) w1;
           case fd of
             Inl e \<Rightarrow> fail (OpenFailed e) (s\<lparr>FileDescriptor := - 1\<rparr>) w2
           | Inr d \<Rightarrow> Connect_capabilities debug (s\<lparr>FileDescriptor := d\<rparr>) w2
         }
   }"

subsection \<open>\<^verbatim>\<open>InternalDisconnect\<close>\<close>

text \<open>
  \<^verbatim>\<open>for (unsigned int i = 0; i < this->BufferCount; ++i) if (-1 == munmap(...)) return PLUS_FAIL;\<close>
\<close>

function munmap_loop :: "nat \<Rightarrow> session \<Rightarrow> world \<Rightarrow> (status \<times> world) option" where
  "munmap_loop i s w =
     (if i < BufferCount s then
        (case frame_at s i of
           None \<Rightarrow> None
         | Some fb \<Rightarrow>
             (case munmap_call (start fb) (length' fb) w of
                None \<Rightarrow> None
              | Some (r, w1) \<Rightarrow>
                  (case r of
                     Inl e \<Rightarrow> Some (Inl (MunmapFailed e), LOG_ERROR (MunmapFailed e) w1)
                   | Inr u \<Rightarrow> munmap_loop (i + 1) s w1)))
      else Some (Inr (), w))"
  by pat_completeness auto
termination
  by (relation "measure (\<lambda>(i, s, w). BufferCount s - i)") auto

declare munmap_loop.simps [simp del]

text \<open>
  \<^verbatim>\<open>for (unsigned int i = 0; i < this->BufferCount; ++i) free(this->Frames[i].start);\<close>
\<close>

function free_loop :: "nat \<Rightarrow> session \<Rightarrow> world \<Rightarrow> world option" where
  "free_loop i s w =
     (if i < BufferCount s then
        (case frame_at s i of
           None \<Rightarrow> None
         | Some fb \<Rightarrow>
             (case free_call (start fb) w of
                None \<Rightarrow> None
              | Some w1 \<Rightarrow> free_loop (i + 1) s w1))
      else Some w)"
  by pat_completeness auto
termination
  by (relation "measure (\<lambda>(i, s, w). BufferCount s - i)") auto

declare free_loop.simps [simp del]

text \<open>After the switch: \<^verbatim>\<open>free(this->Frames)\<close>, \<^verbatim>\<open>close\<close>, \<^verbatim>\<open>this->FileDescriptor = -1\<close>.\<close>

definition Disconnect_close :: "session \<Rightarrow> world \<Rightarrow> (status \<times> session \<times> world) option" where
  "Disconnect_close s w = do {
     w1 \<leftarrow> free_call (Frames s) w;
     (r, w2) \<leftarrow> close_call (FileDescriptor s) w1;
     case r of
       Inl e \<Rightarrow> fail (CloseFailed e) s w2
     | Inr u \<Rightarrow> Some (Inr (), s\<lparr>FileDescriptor := - 1\<rparr>, w2)
   }"

definition InternalDisconnect :: "session \<Rightarrow> world \<Rightarrow> (status \<times> session \<times> world) option" where
  "InternalDisconnect s w =
     (case IOMethod s of
        IO_METHOD_READ \<Rightarrow> do {
          fb \<leftarrow> frame_at s 0;
          w1 \<leftarrow> free_call (start fb) w;
          Disconnect_close s w1
        }
      | IO_METHOD_MMAP \<Rightarrow> do {
          (r, w1) \<leftarrow> munmap_loop 0 s w;
          case r of
            Inl e \<Rightarrow> Some (Inl e, s, w1)
          | Inr u \<Rightarrow> Disconnect_close s w1
        }
      | IO_METHOD_USERPTR \<Rightarrow> do {
          w1 \<leftarrow> free_loop 0 s w;
          Disconnect_close s w1
        }
      | IO_METHOD_UNKNOWN \<Rightarrow> Disconnect_close s w)"

subsection \<open>\<^verbatim>\<open>ReadFrame\<close> and \<^verbatim>\<open>InternalUpdate\<close>\<close>

text \<open>
  The loop of the user-pointer branch looks for the frame buffer the dequeued descriptor
  names and stops there; the source does not use what it finds.
\<close>

function find_frame :: "nat \<Rightarrow> session \<Rightarrow> v4l2_buffer \<Rightarrow> nat option" where
  "find_frame i s buf =
     (if i < BufferCount s then
        (case frame_at s i of
           None \<Rightarrow> None
         | Some fb \<Rightarrow>
             if m_userptr buf = start fb \<and> blength buf = length' fb then Some i
             else find_frame (i + 1) s buf)
      else Some i)"
  by pat_completeness auto
termination
  by (relation "measure (\<lambda>(i, s, buf). BufferCount s - i)") auto

declare find_frame.simps [simp del]

text \<open>
  Dequeue and requeue, for the memory kind \<open>mem\<close>. In both streaming branches the
  descriptor handed to \<^verbatim>\<open>VIDIOC_QBUF\<close> is the one \<^verbatim>\<open>VIDIOC_DQBUF\<close> filled.
\<close>

definition dequeue :: "u32 \<Rightarrow> session \<Rightarrow> world \<Rightarrow> ((errno + arg) \<times> world) option" where
  "dequeue mem s w =
     xioctl (FileDescriptor s) VIDIOC_DQBUF
       (Buffer \<lparr>index = 0, btype = V4L2_BUF_TYPE_VIDEO_CAPTURE, memory = mem,
          blength = 0, m_offset = 0, m_userptr = 0\<rparr>) w"

definition requeue :: "v4l2_buffer \<Rightarrow> session \<Rightarrow> world \<Rightarrow> (status \<times> session \<times> world) option" where
  "requeue buf s w = do {
     (r, w1) \<leftarrow> xioctl (FileDescriptor s) VIDIOC_QBUF (Buffer buf) w;
     case r of
       Inl e \<Rightarrow> fail (IoctlFailed VIDIOC_QBUF e) s w1
     | Inr a \<Rightarrow> Some (Inr (), s, w1)
   }"

definition ReadFrame :: "session \<Rightarrow> world \<Rightarrow> (status \<times> session \<times> world) option" where
  "ReadFrame s w =
     (case IOMethod s of
        IO_METHOD_READ \<Rightarrow> do {
          fb \<leftarrow> frame_at s 0;
          (r, w1) \<leftarrow> read_call (FileDescriptor s) (start fb) (length' fb) w;
          case r of
            Inl e \<Rightarrow>
              if e = EAGAIN then Some (Inl AcquireRecoverable, s, w1)
              else fail (ReadFailed e) s w1
          | Inr n \<Rightarrow> Some (Inr (), s, w1)
        }
      | IO_METHOD_MMAP \<Rightarrow> do {
          (r, w1) \<leftarrow> dequeue V4L2_MEMORY_MMAP s w;
          case r of
            Inl e \<Rightarrow>
              if e = EAGAIN then Some (Inl AcquireRecoverable, s, w1)
              else fail (IoctlFailed VIDIOC_DQBUF e) s w1
          | Inr a \<Rightarrow>
              (case a of
                 Buffer buf \<Rightarrow> requeue buf s w1
               | _ \<Rightarrow> None)
        }
      | IO_METHOD_USERPTR \<Rightarrow> do {
          (r, w1) \<leftarrow> dequeue V4L2_MEMORY_USERPTR s w;
          case r of
            Inl e \<Rightarrow>
              if e = EAGAIN then Some (Inl AcquireRecoverable, s, w1)
              else fail (IoctlFailed VIDIOC_DQBUF e) s w1
          | Inr a \<Rightarrow>
              (case a of
                 Buffer buf \<Rightarrow> do {
                   i \<leftarrow> find_frame 0 s buf;
                   requeue buf s w1
                 }
               | _ \<Rightarrow> None)
        }
      | IO_METHOD_UNKNOWN \<Rightarrow> Some (Inr (), s, w))"

text \<open>\<^verbatim>\<open>select\<close> with a timeout of 2 seconds, then \<^verbatim>\<open>ReadFrame\<close>, then \<^verbatim>\<open>FrameNumber++\<close>.\<close>

definition InternalUpdate :: "session \<Rightarrow> world \<Rightarrow> (status \<times> session \<times> world) option" where
  "InternalUpdate s w = do {
     (r, w1) \<leftarrow> select_call (FileDescriptor s) 2 w;
     case r of
       Inl e \<Rightarrow> fail (PollError e) s w1
     | Inr n \<Rightarrow>
         if n = 0 then fail PollTimeout s w1
         else do {
           (st, s2, w2) \<leftarrow> ReadFrame s w1;
           case st of
             Inl e \<Rightarrow> Some (Inl e, s2, w2)
           | Inr u \<Rightarrow> Some (Inr (), s2\<lparr>FrameNumber := FrameNumber s2 + 1\<rparr>, w2)
         }
   }"

subsection \<open>\<^verbatim>\<open>InternalStopRecording\<close> and \<^verbatim>\<open>InternalStartRecording\<close>\<close>

definition stream_off :: "session \<Rightarrow> world \<Rightarrow> (status \<times> session \<times> world) option" where
  "stream_off s w = do {
     (r, w1) \<leftarrow> xioctl (FileDescriptor s) VIDIOC_STREAMOFF (BufType V4L2_BUF_TYPE_VIDEO_CAPTURE) w;
     case r of
       Inl e \<Rightarrow> Some (Inr (), s, LOG_ERROR (IoctlFailed VIDIOC_STREAMOFF e) w1)
     | Inr a \<Rightarrow> Some (Inr (), s, w1)
   }"

definition InternalStopRecording :: "session \<Rightarrow> world \<Rightarrow> (status \<times> session \<times> world) option" where
  "InternalStopRecording s w =
     (case IOMethod s of
        IO_METHOD_READ \<Rightarrow> Some (Inr (), s, w)
      | IO_METHOD_MMAP \<Rightarrow> stream_off s w
      | IO_METHOD_USERPTR \<Rightarrow> stream_off s w
      | IO_METHOD_UNKNOWN \<Rightarrow> Some (Inr (), s, w))"

text \<open>The descriptor queued for buffer \<open>i\<close> when recording starts.\<close>

definition start_descriptor :: "session \<Rightarrow> nat \<Rightarrow> v4l2_buffer option" where
  "start_descriptor s i =
     (case IOMethod s of
        IO_METHOD_USERPTR \<Rightarrow>
          (case frame_at s i of
             None \<Rightarrow> None
           | Some fb \<Rightarrow>
               Some \<lparr>index = i, btype = V4L2_BUF_TYPE_VIDEO_CAPTURE, memory = V4L2_MEMORY_USERPTR,
                     blength = length' fb, m_offset = 0, m_userptr = start fb\<rparr>)
      | _ \<Rightarrow>
          Some \<lparr>index = i, btype = V4L2_BUF_TYPE_VIDEO_CAPTURE, memory = V4L2_MEMORY_MMAP,
                blength = 0, m_offset = 0, m_userptr = 0\<rparr>)"

function queue_loop :: "nat \<Rightarrow> session \<Rightarrow> world \<Rightarrow> (status \<times> session \<times> world) option" where
  "queue_loop i s w =
     (if i < BufferCount s then
        (case start_descriptor s i of
           None \<Rightarrow> None
         | Some buf \<Rightarrow>
             (case xioctl (FileDescriptor s) VIDIOC_QBUF (Buffer buf) w of
                None \<Rightarrow> None
              | Some (r, w1) \<Rightarrow>
                  (case r of
                     Inl e \<Rightarrow> fail (IoctlFailed VIDIOC_QBUF e) s w1
                   | Inr a \<Rightarrow> queue_loop (i + 1) s w1)))
      else Some (Inr (), s, w))"
  by pat_completeness auto
termination
  by (relation "measure (\<lambda>(i, s, w). BufferCount s - i)") auto

declare queue_loop.simps [simp del]

definition stream_on :: "session \<Rightarrow> world \<Rightarrow> (status \<times> session \<times> world) option" where
  "stream_on s w = do {
     (st, s1, w1) \<leftarrow> queue_loop 0 s w;
     case st of
       Inl e \<Rightarrow> Some (Inl e, s1, w1)
     | Inr u \<Rightarrow> do {
         (r, w2) \<leftarrow> xioctl (FileDescriptor s1) VIDIOC_STREAMON
                      (BufType V4L2_BUF_TYPE_VIDEO_CAPTURE) w1;
         case r of
           Inl e \<Rightarrow> fail (IoctlFailed VIDIOC_STREAMON e) s1 w2
         | Inr a \<Rightarrow> Some (Inr (), s1, w2)
       }
   }"

definition InternalStartRecording :: "session \<Rightarrow> world \<Rightarrow> (status \<times> session \<times> world) option" where
  "InternalStartRecording s w =
     (case IOMethod s of
        IO_METHOD_READ \<Rightarrow> Some (Inr (), s, w)
      | IO_METHOD_MMAP \<Rightarrow> stream_on s w
      | IO_METHOD_USERPTR \<Rightarrow> stream_on s w
      | IO_METHOD_UNKNOWN \<Rightarrow> Some (Inr (), s, w))"

section \<open>Vocabulary of the properties\<close>

text \<open>The answer of the script that makes a device-control request return \<open>r\<close>.\<close>

fun answer_of :: "errno + arg \<Rightarrow> answer" where
  "answer_of (Inl e) = Fails e"
| "answer_of (Inr a) = Fills a"

text \<open>An error that reports a device-control request interrupted by a signal.\<close>

definition reports_EINTR :: "error \<Rightarrow> bool" where
  "reports_EINTR e = (case e of IoctlFailed rq x \<Rightarrow> x = EINTR | _ \<Rightarrow> False)"

text \<open>
  A device-control request that was interrupted by a signal. The format enumeration of
  \<^verbatim>\<open>PrintSelf\<close> is left out: it calls \<^verbatim>\<open>ioctl\<close> itself and takes any failure as the
  end of the enumeration.
\<close>

definition interrupted :: "call \<times> answer \<Rightarrow> bool" where
  "interrupted ev =
     (case ev of
        (Ioctl fd rq a, Fails e) \<Rightarrow> e = EINTR \<and> rq \<noteq> VIDIOC_ENUM_FMT
      | _ \<Rightarrow> False)"

text \<open>Every interrupted request of the list is followed at once by the same call.\<close>

fun retried :: "(call \<times> answer) list \<Rightarrow> bool" where
  "retried [] = True"
| "retried [ev] = (\<not> interrupted ev)"
| "retried (ev # ev' # es) = ((interrupted ev \<longrightarrow> fst ev' = fst ev) \<and> retried (ev' # es))"

text \<open>
  From \<open>w\<close> to \<open>w'\<close> the log only grows, and by no report of an interrupted request;
  the events only grow, and every interrupted request among the new ones is retried.
\<close>

definition quiet :: "world \<Rightarrow> world \<Rightarrow> bool" where
  "quiet w w' \<longleftrightarrow>
     (\<exists>ls. logged w' = logged w @ ls \<and> (\<forall>e\<in>set ls. \<not> reports_EINTR e)) \<and>
     (\<exists>es. events w' = events w @ es \<and> retried es)"

definition no_EINTR_reported :: "status \<Rightarrow> world \<Rightarrow> world \<Rightarrow> bool" where
  "no_EINTR_reported r w w' \<longleftrightarrow>
     (case r of Inl e \<Rightarrow> \<not> reports_EINTR e | Inr u \<Rightarrow> True) \<and> quiet w w'"

text \<open>A world with a script and nothing else, and a session in direct-read mode with
  its one frame buffer allocated.\<close>

definition blank :: "answer list \<Rightarrow> world" where
  "blank answers = \<lparr>script = answers, events = [], logged = [], heap = {#}, mappings = {#},
     descriptors = {#}, sink = []\<rparr>"

definition reading :: session where
  "reading = vtkPlusV4L2VideoSource\<lparr>DeviceName := ''/dev/video0'', FileDescriptor := 3,
     Frames := 0x1000, FramesArray := [\<lparr>start = 0x2000, length' = 614400\<rparr>]\<rparr>"

text \<open>The events written between the world \<open>w\<close> and a later world \<open>w'\<close>.\<close>

definition events_since :: "world \<Rightarrow> world \<Rightarrow> (call \<times> answer) list" where
  "events_since w w' = drop (length (events w)) (events w')"

text \<open>An acquisition step that fails with \<^verbatim>\<open>EAGAIN\<close>: the \<^verbatim>\<open>read\<close> of the direct-read
  mode or the \<^verbatim>\<open>VIDIOC_DQBUF\<close> of the streaming modes.\<close>

definition acquire_EAGAIN :: "call \<times> answer \<Rightarrow> bool" where
  "acquire_EAGAIN ev =
     (snd ev = Fails EAGAIN \<and>
      (case fst ev of
         Read fd buf len \<Rightarrow> True
       | Ioctl fd rq a \<Rightarrow> rq = VIDIOC_DQBUF
       | _ \<Rightarrow> False))"

text \<open>The calls that tear a connection down: closing, unmapping, freeing, stream-off.\<close>

definition tears_down :: "call \<Rightarrow> bool" where
  "tears_down c =
     (case c of
        Close fd \<Rightarrow> True
      | Munmap p len \<Rightarrow> True
      | Free p \<Rightarrow> True
      | Ioctl fd rq a \<Rightarrow> rq = VIDIOC_STREAMOFF
      | _ \<Rightarrow> False)"

text \<open>
  The queue operations that took place: a \<^verbatim>\<open>VIDIOC_DQBUF\<close> that succeeded hands out the
  descriptor the kernel filled in, a \<^verbatim>\<open>VIDIOC_QBUF\<close> that succeeded hands back the
  descriptor it was called with. A request that failed moved no buffer.
\<close>

datatype queue_op = Dequeued v4l2_buffer | Requeued v4l2_buffer

definition queue_op_of :: "call \<times> answer \<Rightarrow> queue_op option" where
  "queue_op_of ev =
     (case ev of
        (Ioctl fd rq a, Fills a') \<Rightarrow>
          (if rq = VIDIOC_DQBUF then (case a' of Buffer b \<Rightarrow> Some (Dequeued b) | _ \<Rightarrow> None)
           else if rq = VIDIOC_QBUF then (case a of Buffer b \<Rightarrow> Some (Requeued b) | _ \<Rightarrow> None)
           else None)
      | _ \<Rightarrow> None)"

definition queue_trace :: "(call \<times> answer) list \<Rightarrow> queue_op list" where
  "queue_trace es = List.map_filter queue_op_of es"

definition requeues :: "(call \<times> answer) list \<Rightarrow> nat" where
  "requeues es = length (filter (\<lambda>x. case x of Requeued b \<Rightarrow> True | _ \<Rightarrow> False) (queue_trace es))"

text \<open>\<open>K\<close> update cycles in a row, each of them successful (the scheduler that calls
  \<^verbatim>\<open>InternalUpdate\<close> is outside this class). \<open>pairs bs\<close> is the trace in which every
  descriptor of \<open>bs\<close> is dequeued and then requeued.\<close>

fun cycles :: "nat \<Rightarrow> session \<Rightarrow> world \<Rightarrow> (session \<times> world) option" where
  "cycles 0 s w = Some (s, w)"
| "cycles (Suc k) s w =
     (case InternalUpdate s w of
        None \<Rightarrow> None
      | Some (r, s1, w1) \<Rightarrow> (case r of Inl e \<Rightarrow> None | Inr u \<Rightarrow> cycles k s1 w1))"

fun pairs :: "v4l2_buffer list \<Rightarrow> queue_op list" where
  "pairs [] = []"
| "pairs (b # bs) = Dequeued b # Requeued b # pairs bs"

text \<open>A session in kernel-mapped mode with two buffers, and the descriptor the kernel
  hands out for buffer \<open>i\<close>.\<close>

definition streaming :: session where
  "streaming = vtkPlusV4L2VideoSource\<lparr>DeviceName := ''/dev/video0'', IOMethod := IO_METHOD_MMAP,
     FileDescriptor := 3, Frames := 0x1000,
     FramesArray := [\<lparr>start = 0x7000, length' = 614400\<rparr>, \<lparr>start = 0x8000, length' = 614400\<rparr>],
     BufferCount := 2\<rparr>"

definition filled :: "nat \<Rightarrow> v4l2_buffer" where
  "filled i = \<lparr>index = i, btype = V4L2_BUF_TYPE_VIDEO_CAPTURE, memory = V4L2_MEMORY_MMAP,
     blength = 614400, m_offset = i * 614400, m_userptr = 0\<rparr>"

text \<open>A session that has read its configuration, the format a device may report, and
  the format it may give back to a request for 640 by 480 pixels.\<close>

definition fresh :: session where
  "fresh = vtkPlusV4L2VideoSource\<lparr>DeviceName := ''/dev/video0''\<rparr>"

definition hd_format :: v4l2_format where
  "hd_format = \<lparr>type' = 1, pix = \<lparr>width = 1920, height = 1080, pixelformat = 0x47504A4D,
     field = 1, bytesperline = 0, sizeimage = 4147200\<rparr>\<rparr>"

definition vga_format :: v4l2_format where
  "vga_format = \<lparr>type' = 1, pix = \<lparr>width = 640, height = 480, pixelformat = V4L2_PIX_FMT_YUYV,
     field = V4L2_FIELD_INTERLACED, bytesperline = 1280, sizeimage = 614400\<rparr>\<rparr>"

text \<open>The calls of the format enumeration.\<close>

definition is_ENUM_FMT :: "call \<times> answer \<Rightarrow> bool" where
  "is_ENUM_FMT ev = (case fst ev of Ioctl fd rq a \<Rightarrow> rq = VIDIOC_ENUM_FMT | _ \<Rightarrow> False)"

text \<open>The sizes handed to \<^verbatim>\<open>malloc\<close>, in the order of the calls.\<close>

definition mallocs :: "(call \<times> answer) list \<Rightarrow> nat list" where
  "mallocs es = List.map_filter (\<lambda>ev. case fst ev of Malloc n \<Rightarrow> Some n | _ \<Rightarrow> None) es"

text \<open>
  What can go wrong while the kernel-mapped buffers are set up: a device-control
  request \<open>rq\<close> that fails for good (not with \<^verbatim>\<open>EINTR\<close>, which is retried), a grant of
  fewer than two buffers, a container that cannot be allocated. \<open>mmap_calls\<close> are the
  calls of \<^verbatim>\<open>mmap\<close> and \<open>mmap_failures\<close> the error numbers of those that failed;
  \<open>logged_since\<close> are the messages logged between two worlds.
\<close>

definition request_fails :: "request \<Rightarrow> call \<times> answer \<Rightarrow> bool" where
  "request_fails rq ev =
     (case ev of
        (Ioctl fd rq' a, Fails e) \<Rightarrow> rq' = rq \<and> e \<noteq> EINTR
      | _ \<Rightarrow> False)"

definition too_few_granted :: "call \<times> answer \<Rightarrow> bool" where
  "too_few_granted ev =
     (case ev of
        (Ioctl fd rq a, Fills (RequestBuffers req)) \<Rightarrow> rq = VIDIOC_REQBUFS \<and> count' req < 2
      | _ \<Rightarrow> False)"

definition container_fails :: "call \<times> answer \<Rightarrow> bool" where
  "container_fails ev =
     (case ev of
        (Calloc n, Pointer p) \<Rightarrow> p = NULL
      | _ \<Rightarrow> False)"

definition init_failure :: "call \<times> answer \<Rightarrow> bool" where
  "init_failure ev \<longleftrightarrow>
     request_fails VIDIOC_REQBUFS ev \<or> too_few_granted ev \<or>
     request_fails VIDIOC_QUERYBUF ev \<or> container_fails ev"

definition mmap_calls :: "(call \<times> answer) list \<Rightarrow> (call \<times> answer) list" where
  "mmap_calls es = filter (\<lambda>ev. case fst ev of Mmap l fd off \<Rightarrow> True | _ \<Rightarrow> False) es"

definition mmap_failures :: "(call \<times> answer) list \<Rightarrow> errno list" where
  "mmap_failures es =
     List.map_filter (\<lambda>ev. case ev of (Mmap l fd off, Fails e) \<Rightarrow> Some e | _ \<Rightarrow> None) es"

definition logged_since :: "world \<Rightarrow> world \<Rightarrow> error list" where
  "logged_since w w' = drop (length (logged w)) (logged w')"

text \<open>The answer of a kernel that grants \<open>n\<close> buffers.\<close>

definition granted :: "nat \<Rightarrow> answer" where
  "granted n = Fills (RequestBuffers \<lparr>count' = n, rtype = V4L2_BUF_TYPE_VIDEO_CAPTURE,
     rmemory = V4L2_MEMORY_MMAP\<rparr>)"

text \<open>
  The call of the acquisition step of a session (the \<^verbatim>\<open>read\<close> of the direct-read mode, the
  \<^verbatim>\<open>VIDIOC_DQBUF\<close> of a streaming mode), the error \<^verbatim>\<open>ReadFrame\<close> makes of its error number,
  and the world after a cycle whose \<^verbatim>\<open>select\<close> returned \<open>n\<close> and whose acquisition step was
  interrupted \<open>k\<close> times and then failed with \<open>e\<close>: only \<^verbatim>\<open>EAGAIN\<close> is not logged.
\<close>

definition acquisition :: "session \<Rightarrow> call" where
  "acquisition s =
     (case IOMethod s of
        IO_METHOD_USERPTR \<Rightarrow>
          Ioctl (FileDescriptor s) VIDIOC_DQBUF
            (Buffer \<lparr>index = 0, btype = V4L2_BUF_TYPE_VIDEO_CAPTURE, memory = V4L2_MEMORY_USERPTR,
               blength = 0, m_offset = 0, m_userptr = 0\<rparr>)
      | IO_METHOD_MMAP \<Rightarrow>
          Ioctl (FileDescriptor s) VIDIOC_DQBUF
            (Buffer \<lparr>index = 0, btype = V4L2_BUF_TYPE_VIDEO_CAPTURE, memory = V4L2_MEMORY_MMAP,
               blength = 0, m_offset = 0, m_userptr = 0\<rparr>)
      | _ \<Rightarrow>
          Read (FileDescriptor s) (start (FramesArray s ! 0)) (length' (FramesArray s ! 0)))"

definition acquisition_error :: "session \<Rightarrow> errno \<Rightarrow> error" where
  "acquisition_error s e =
     (if e = EAGAIN then AcquireRecoverable
      else case IOMethod s of
             IO_METHOD_READ \<Rightarrow> ReadFailed e
           | _ \<Rightarrow> IoctlFailed VIDIOC_DQBUF e)"

definition acquisition_fails ::
    "session \<Rightarrow> nat \<Rightarrow> nat \<Rightarrow> errno \<Rightarrow> answer list \<Rightarrow> world \<Rightarrow> world" where
  "acquisition_fails s n k e rest w =
     (let w1 = w\<lparr>script := rest,
                 events := events w @ (Select (FileDescriptor s) 2, Returns n) #
                   replicate k (acquisition s, Fails EINTR) @ [(acquisition s, Fails e)]\<rparr>
      in if e = EAGAIN then w1 else LOG_ERROR (acquisition_error s e) w1)"

text \<open>
  What the kernel does for one buffer while the kernel-mapped buffers are set up: the
  number of times its \<^verbatim>\<open>VIDIOC_QUERYBUF\<close> is interrupted, the descriptor the request then
  fills in, and the outcome of \<^verbatim>\<open>mmap\<close>. \<open>buffer_answers\<close> are the answers of the script
  that say so, \<open>frame_of\<close> is the frame buffer the loop stores for it, \<open>mapping_logs\<close> are
  the messages of the mappings that failed, in the order of the buffers; \<^verbatim>\<open>mmap\<close> never
  returns \<^verbatim>\<open>MAP_FAILED\<close> as the address of a region (\<open>mappable\<close>).
\<close>

type_synonym buffer_reply = "nat \<times> v4l2_buffer \<times> (errno + pointer)"

definition buffer_answers :: "buffer_reply \<Rightarrow> answer list" where
  "buffer_answers b =
     (case b of (k, buf, m) \<Rightarrow>
        replicate k (Fails EINTR) @
        [Fills (Buffer buf), case m of Inl e \<Rightarrow> Fails e | Inr p \<Rightarrow> Pointer p])"

definition frame_of :: "buffer_reply \<Rightarrow> FrameBuffer" where
  "frame_of b =
     (case b of (k, buf, m) \<Rightarrow>
        \<lparr>start = (case m of Inl e \<Rightarrow> MAP_FAILED | Inr p \<Rightarrow> p), length' = blength buf\<rparr>)"

definition mapping_logs :: "buffer_reply list \<Rightarrow> error list" where
  "mapping_logs bs =
     concat (map (\<lambda>b. case b of (k, buf, m) \<Rightarrow>
       (case m of Inl e \<Rightarrow> [MmapFailed e] | Inr p \<Rightarrow> [])) bs)"

definition mappable :: "buffer_reply \<Rightarrow> bool" where
  "mappable b = (case b of (k, buf, m) \<Rightarrow> m \<noteq> Inr MAP_FAILED)"

(*DEFS*)

section \<open>The system calls\<close>

lemma syscall_SomeD:
  "syscall c w = Some (a, w') \<Longrightarrow>
     \<exists>rest. script w = a # rest \<and> w' = w\<lparr>script := rest, events := events w @ [(c, a)]\<rparr>"
  by (auto simp: syscall_def split: list.splits)

lemma ioctl_SomeD:
  "ioctl fh rq a w = Some (r, w') \<Longrightarrow>
     \<exists>rest. script w = answer_of r # rest \<and>
     w' = w\<lparr>script := rest, events := events w @ [(Ioctl fh rq a, answer_of r)]\<rparr>"
  by (auto simp: ioctl_def split: option.splits answer.splits dest!: syscall_SomeD)

lemma stat_call_SomeD:
  "stat_call path w = Some (r, w') \<Longrightarrow>
     \<exists>a rest. script w = a # rest \<and>
       w' = w\<lparr>script := rest, events := events w @ [(Stat path, a)]\<rparr> \<and>
       (case r of Inl e \<Rightarrow> a = Fails e | Inr b \<Rightarrow> a = CharDevice b)"
  by (auto simp: stat_call_def split: option.splits answer.splits dest!: syscall_SomeD)

lemma open_call_SomeD:
  "open_call path w = Some (r, w') \<Longrightarrow>
     \<exists>a rest. script w = a # rest \<and>
       (case r of
          Inl e \<Rightarrow> a = Fails e \<and> w' = w\<lparr>script := rest, events := events w @ [(Open path, a)]\<rparr>
        | Inr fd \<Rightarrow> a = Returns (nat fd) \<and> 0 \<le> fd \<and>
            w' = w\<lparr>script := rest, events := events w @ [(Open path, a)],
                   descriptors := add_mset fd (descriptors w)\<rparr>)"
  by (auto simp: open_call_def split: option.splits answer.splits dest!: syscall_SomeD)

lemma close_call_SomeD:
  "close_call fd w = Some (r, w') \<Longrightarrow>
     \<exists>a rest. script w = a # rest \<and>
       (case r of
          Inl e \<Rightarrow> a = Fails e \<and> w' = w\<lparr>script := rest, events := events w @ [(Close fd, a)]\<rparr>
        | Inr u \<Rightarrow> (\<exists>n. a = Returns n) \<and>
            w' = w\<lparr>script := rest, events := events w @ [(Close fd, a)],
                   descriptors := descriptors w - {#fd#}\<rparr>)"
  by (auto simp: close_call_def split: option.splits answer.splits dest!: syscall_SomeD)

lemma calloc_call_SomeD:
  "calloc_call n w = Some (p, w') \<Longrightarrow>
     \<exists>rest. script w = Pointer p # rest \<and>
       w' = w\<lparr>script := rest, events := events w @ [(Calloc n, Pointer p)],
              heap := (if p = NULL then heap w else add_mset p (heap w))\<rparr>"
  by (auto simp: calloc_call_def split: option.splits answer.splits if_splits dest!: syscall_SomeD)

lemma malloc_call_SomeD:
  "malloc_call n w = Some (p, w') \<Longrightarrow>
     \<exists>rest. script w = Pointer p # rest \<and>
       w' = w\<lparr>script := rest, events := events w @ [(Malloc n, Pointer p)],
              heap := (if p = NULL then heap w else add_mset p (heap w))\<rparr>"
  by (auto simp: malloc_call_def split: option.splits answer.splits if_splits dest!: syscall_SomeD)

lemma free_call_SomeD:
  "free_call p w = Some w' \<Longrightarrow>
     (p = NULL \<or> p \<in># heap w) \<and>
     w' = w\<lparr>events := events w @ [(Free p, Void)],
            heap := (if p = NULL then heap w else heap w - {#p#})\<rparr>"
  by (auto simp: free_call_def split: if_splits)

lemma mmap_call_SomeD:
  "mmap_call len fd off w = Some (r, w') \<Longrightarrow>
     \<exists>a rest. script w = a # rest \<and>
       (case r of
          Inl e \<Rightarrow> a = Fails e \<and>
            w' = w\<lparr>script := rest, events := events w @ [(Mmap len fd off, a)]\<rparr>
        | Inr p \<Rightarrow> a = Pointer p \<and> p \<noteq> MAP_FAILED \<and>
            w' = w\<lparr>script := rest, events := events w @ [(Mmap len fd off, a)],
                   mappings := add_mset (p, len) (mappings w)\<rparr>)"
  by (auto simp: mmap_call_def split: option.splits answer.splits if_splits dest!: syscall_SomeD)

lemma munmap_call_SomeD:
  "munmap_call p len w = Some (r, w') \<Longrightarrow>
     \<exists>a rest. script w = a # rest \<and>
       (case r of
          Inl e \<Rightarrow> a = Fails e \<and>
            w' = w\<lparr>script := rest, events := events w @ [(Munmap p len, a)]\<rparr>
        | Inr u \<Rightarrow> (\<exists>n. a = Returns n) \<and> p \<noteq> MAP_FAILED \<and>
            w' = w\<lparr>script := rest, events := events w @ [(Munmap p len, a)],
                   mappings := mappings w - {#(p, len)#}\<rparr>)"
  by (auto simp: munmap_call_def split: option.splits answer.splits if_splits dest!: syscall_SomeD)

lemma select_call_SomeD:
  "select_call fd t w = Some (r, w') \<Longrightarrow>
     \<exists>a rest. script w = a # rest \<and>
       w' = w\<lparr>script := rest, events := events w @ [(Select fd t, a)]\<rparr> \<and>
       (case r of Inl e \<Rightarrow> a = Fails e | Inr n \<Rightarrow> a = Returns n)"
  by (auto simp: select_call_def split: option.splits answer.splits dest!: syscall_SomeD)

lemma read_call_SomeD:
  "read_call fd buf len w = Some (r, w') \<Longrightarrow>
     \<exists>a rest. script w = a # rest \<and>
       w' = w\<lparr>script := rest, events := events w @ [(Read fd buf len, a)]\<rparr> \<and>
       (case r of Inl e \<Rightarrow> a = Fails e | Inr n \<Rightarrow> a = Returns n)"
  by (auto simp: read_call_def split: option.splits answer.splits dest!: syscall_SomeD)

lemma xioctl_SomeD:
  "xioctl fh rq a w = Some (r, w') \<Longrightarrow>
     r \<noteq> Inl EINTR \<and>
     (\<exists>n rest. script w = replicate n (Fails EINTR) @ answer_of r # rest \<and>
          w' = w\<lparr>script := rest,
                 events := events w @ replicate n (Ioctl fh rq a, Fails EINTR)
                             @ [(Ioctl fh rq a, answer_of r)]\<rparr>)"
proof (induction fh rq a w rule: xioctl.induct)
  case (1 fh rq a w)
  from "1.prems" obtain r1 w1 where io: "ioctl fh rq a w = Some (r1, w1)"
    by (subst (asm) xioctl.simps) (auto split: option.splits)
  from ioctl_SomeD [OF io] obtain rest1 where
    d: "script w = answer_of r1 # rest1"
       "w1 = w\<lparr>script := rest1, events := events w @ [(Ioctl fh rq a, answer_of r1)]\<rparr>"
    by blast
  show ?case
  proof (cases "r1 = Inl EINTR")
    case True
    with "1.prems" io have rec: "xioctl fh rq a w1 = Some (r, w')"
      by (subst (asm) xioctl.simps) simp
    from "1.IH" [OF io refl True rec] obtain n rest where
      n: "r \<noteq> Inl EINTR" "script w1 = replicate n (Fails EINTR) @ answer_of r # rest"
         "w' = w1\<lparr>script := rest,
                 events := events w1 @ replicate n (Ioctl fh rq a, Fails EINTR)
                             @ [(Ioctl fh rq a, answer_of r)]\<rparr>"
      by blast
    have "script w = replicate (Suc n) (Fails EINTR) @ answer_of r # rest"
      using d n True by simp
    moreover have "w' = w\<lparr>script := rest,
                 events := events w @ replicate (Suc n) (Ioctl fh rq a, Fails EINTR)
                             @ [(Ioctl fh rq a, answer_of r)]\<rparr>"
      unfolding n(3) d(2) using True by simp
    ultimately show ?thesis using n(1) by blast
  next
    case False
    with "1.prems" io have "r = r1" "w' = w1"
      by (subst (asm) xioctl.simps, simp)+
    with d False show ?thesis
      by (intro conjI exI [of _ 0] exI [of _ rest1]) auto
  qed
qed

lemma xioctl_returns:
  "script w = replicate n (Fails EINTR) @ answer_of r # rest \<Longrightarrow> r \<noteq> Inl EINTR \<Longrightarrow>
   xioctl fh rq a w = Some (r, w\<lparr>script := rest,
                 events := events w @ replicate n (Ioctl fh rq a, Fails EINTR)
                             @ [(Ioctl fh rq a, answer_of r)]\<rparr>)"
proof (induction n arbitrary: w)
  case 0
  then show ?case
    by (subst xioctl.simps) (cases r; simp add: ioctl_def syscall_def)
next
  case (Suc n)
  let ?w1 = "w\<lparr>script := replicate n (Fails EINTR) @ answer_of r # rest,
                events := events w @ [(Ioctl fh rq a, Fails EINTR)]\<rparr>"
  have io: "ioctl fh rq a w = Some (Inl EINTR, ?w1)"
    using Suc.prems by (simp add: ioctl_def syscall_def)
  have "xioctl fh rq a w = xioctl fh rq a ?w1"
    by (subst xioctl.simps) (simp add: io)
  also have "\<dots> = Some (r, ?w1\<lparr>script := rest,
                 events := events ?w1 @ replicate n (Ioctl fh rq a, Fails EINTR)
                             @ [(Ioctl fh rq a, answer_of r)]\<rparr>)"
    by (rule Suc.IH) (use Suc.prems in simp_all)
  finally show ?case by simp
qed

section \<open>The update cycle\<close>

lemma ReadFrame_session: "ReadFrame s w = Some (r, s', w') \<Longrightarrow> s' = s"
  by (auto simp: ReadFrame_def requeue_def fail_def
      split: V4L2_IO_METHOD.splits Option.bind_splits sum.splits arg.splits if_splits)

lemmas cycle_defs = InternalUpdate_def select_call_def syscall_def blank_def reading_def
  vtkPlusV4L2VideoSource_def ReadFrame_def frame_at_def read_call_def fail_def LOG_ERROR_def

text \<open>
  C5. In every update cycle \<open>FrameNumber\<close> grows by exactly 1 when the cycle returns
  success and by 0 when it returns \<open>PollTimeout\<close> or the recoverable acquisition failure
  (\<^verbatim>\<open>EAGAIN\<close>); it never gets smaller.
\<close>

theorem FrameNumber_per_cycle:
  "InternalUpdate s w = Some (r, s', w') \<Longrightarrow>
     (r = Inr () \<longrightarrow> FrameNumber s' = FrameNumber s + 1) \<and>
     (r = Inl PollTimeout \<or> r = Inl AcquireRecoverable \<longrightarrow> FrameNumber s' = FrameNumber s) \<and>
     FrameNumber s \<le> FrameNumber s'"
  by (auto simp: InternalUpdate_def fail_def
      split: Option.bind_splits sum.splits if_splits dest!: ReadFrame_session)

theorem FrameNumber_per_cycle_witness:
  "InternalUpdate reading (blank [Returns 1, Returns 614400]) =
     Some (Inr (), reading\<lparr>FrameNumber := 1\<rparr>,
       (blank [])\<lparr>events := [(Select 3 2, Returns 1), (Read 3 0x2000 614400, Returns 614400)]\<rparr>)
   \<and> FrameNumber (reading\<lparr>FrameNumber := 1\<rparr>) = FrameNumber reading + 1
   \<and> InternalUpdate reading (blank [Returns 0]) =
     Some (Inl PollTimeout, reading,
       (blank [])\<lparr>events := [(Select 3 2, Returns 0)], logged := [PollTimeout]\<rparr>)
   \<and> InternalUpdate reading (blank [Returns 1, Fails EAGAIN]) =
     Some (Inl AcquireRecoverable, reading,
       (blank [])\<lparr>events := [(Select 3 2, Returns 1), (Read 3 0x2000 614400, Fails EAGAIN)]\<rparr>)"
proof -
  have a: "InternalUpdate reading (blank [Returns 1, Returns 614400]) =
     Some (Inr (), reading\<lparr>FrameNumber := 1\<rparr>,
       (blank [])\<lparr>events := [(Select 3 2, Returns 1), (Read 3 0x2000 614400, Returns 614400)]\<rparr>)"
    by (simp add: cycle_defs)
  have b: "InternalUpdate reading (blank [Returns 0]) =
     Some (Inl PollTimeout, reading,
       (blank [])\<lparr>events := [(Select 3 2, Returns 0)], logged := [PollTimeout]\<rparr>)"
    by (simp add: cycle_defs)
  have c: "InternalUpdate reading (blank [Returns 1, Fails EAGAIN]) =
     Some (Inl AcquireRecoverable, reading,
       (blank [])\<lparr>events := [(Select 3 2, Returns 1), (Read 3 0x2000 614400, Fails EAGAIN)]\<rparr>)"
    by (simp add: cycle_defs)
  show ?thesis
    using FrameNumber_per_cycle [OF a] FrameNumber_per_cycle [OF b]
      FrameNumber_per_cycle [OF c] a b c
    by simp
qed

lemma events_since_append [simp]:
  "events_since w (w\<lparr>script := sc, events := events w @ es\<rparr>) = es"
  "events_since w (w\<lparr>script := sc, events := events w @ es, logged := l\<rparr>) = es"
  by (simp_all add: events_since_def)

lemma ReadFrame_effect:
  "ReadFrame s w = Some (r, s', w') \<Longrightarrow>
     s' = s \<and> heap w' = heap w \<and> mappings w' = mappings w \<and> descriptors w' = descriptors w \<and>
     sink w' = sink w \<and>
     (\<exists>es. events w' = events w @ es \<and> (\<forall>ev\<in>set es. \<not> tears_down (fst ev)) \<and>
        ((\<exists>ev\<in>set es. acquire_EAGAIN ev) \<longleftrightarrow> r = Inl AcquireRecoverable) \<and>
        (r = Inl AcquireRecoverable \<longrightarrow> logged w' = logged w))"
  apply (cases "IOMethod s")
     apply (auto simp: ReadFrame_def requeue_def dequeue_def fail_def LOG_ERROR_def tears_down_def acquire_EAGAIN_def
      split: Option.bind_splits sum.splits arg.splits if_splits
      dest!: xioctl_SomeD read_call_SomeD)
  done

lemma queue_trace_simps [simp]:
  "queue_trace [] = []"
  "queue_trace (xs @ ys) = queue_trace xs @ queue_trace ys"
  "queue_trace (ev # xs) = (case queue_op_of ev of None \<Rightarrow> [] | Some x \<Rightarrow> [x]) @ queue_trace xs"
  by (simp_all add: queue_trace_def List.map_filter_def split: option.splits)

lemma queue_trace_replicate [simp]: "queue_trace (replicate n (c, Fails e)) = []"
  by (induction n) (simp_all add: queue_op_of_def split: call.splits)

lemma Select_neutral [simp]:
  "\<not> acquire_EAGAIN (Select fd t, a)" "\<not> tears_down (Select fd t)"
  by (simp_all add: acquire_EAGAIN_def tears_down_def)

lemmas stream_defs = InternalUpdate_def select_call_def syscall_def blank_def streaming_def
  vtkPlusV4L2VideoSource_def ReadFrame_def dequeue_def requeue_def xioctl.simps ioctl_def
  fail_def LOG_ERROR_def

lemma InternalUpdate_acquisition_fails:
  assumes "IOMethod s \<noteq> IO_METHOD_UNKNOWN"
    and "IOMethod s = IO_METHOD_READ \<longrightarrow> FramesArray s \<noteq> [] \<and> k = 0"
    and "0 < n" and "e \<noteq> EINTR"
    and "script w = Returns n # replicate k (Fails EINTR) @ Fails e # rest"
  shows "InternalUpdate s w =
     Some (Inl (acquisition_error s e), s, acquisition_fails s n k e rest w)"
proof -
  let ?w1 = "w\<lparr>script := replicate k (Fails EINTR) @ Fails e # rest,
               events := events w @ [(Select (FileDescriptor s) 2, Returns n)]\<rparr>"
  have sel: "select_call (FileDescriptor s) 2 w = Some (Inr n, ?w1)"
    using assms(5) by (simp add: select_call_def syscall_def)
  have x: "xioctl fh rq a ?w1 =
      Some (Inl e, ?w1\<lparr>script := rest,
        events := events ?w1 @ replicate k (Ioctl fh rq a, Fails EINTR)
                    @ [(Ioctl fh rq a, answer_of (Inl e))]\<rparr>)" for fh rq a
    by (rule xioctl_returns) (simp_all add: assms(4))
  show ?thesis
  proof (cases "IOMethod s")
    case IO_METHOD_READ
    with assms(2) have "FramesArray s \<noteq> []" "k = 0" by simp_all
    with IO_METHOD_READ sel assms(3) show ?thesis
      by (simp add: InternalUpdate_def ReadFrame_def frame_at_def read_call_def syscall_def
          acquisition_def acquisition_error_def acquisition_fails_def fail_def)
  next
    case IO_METHOD_MMAP
    with sel assms(3) show ?thesis
      by (simp add: InternalUpdate_def ReadFrame_def dequeue_def x acquisition_def
          acquisition_error_def acquisition_fails_def fail_def)
  next
    case IO_METHOD_USERPTR
    with sel assms(3) show ?thesis
      by (simp add: InternalUpdate_def ReadFrame_def dequeue_def x acquisition_def
          acquisition_error_def acquisition_fails_def fail_def)
  next
    case IO_METHOD_UNKNOWN
    with assms(1) show ?thesis by simp
  qed
qed

text \<open>
  C7. When the acquisition step of an update cycle fails with \<^verbatim>\<open>EAGAIN\<close>, the cycle
  returns the recoverable failure: no frame is produced, \<open>FrameNumber\<close> and every other
  member of the session are unchanged (the session is the same), and nothing is logged.
  No failing cycle changes the session, and no cycle at all, whatever its acquisition
  error, closes the device, unmaps or frees a buffer or stops the stream: the
  descriptor, the heap, the mappings and the open descriptors are as before.

  And the cycle does return: whenever \<^verbatim>\<open>select\<close> reports the descriptor ready and the
  acquisition step, after any number \<open>k\<close> of interruptions that \<^verbatim>\<open>xioctl\<close> retries (none
  in direct-read mode, where \<^verbatim>\<open>read\<close> is called once), fails with an error number \<open>e\<close>, the
  cycle returns a failure with the session unchanged, the script used up to there and
  nothing called after the failed step; the failure is the recoverable one exactly for
  \<^verbatim>\<open>EAGAIN\<close>, and then nothing is logged.
\<close>

theorem EAGAIN_leaves_session:
  "(InternalUpdate s w = Some (r, s', w') \<longrightarrow>
     events w' = events w @ events_since w w' \<and>
     ((\<exists>ev\<in>set (events_since w w'). acquire_EAGAIN ev) \<longrightarrow>
        r = Inl AcquireRecoverable \<and> s' = s \<and> sink w' = sink w \<and> logged w' = logged w) \<and>
     (r = Inl AcquireRecoverable \<longrightarrow> (\<exists>ev\<in>set (events_since w w'). acquire_EAGAIN ev)) \<and>
     (\<forall>e. r = Inl e \<longrightarrow> s' = s) \<and>
     FileDescriptor s' = FileDescriptor s \<and>
     heap w' = heap w \<and> mappings w' = mappings w \<and> descriptors w' = descriptors w \<and>
     (\<forall>ev\<in>set (events_since w w'). \<not> tears_down (fst ev))) \<and>
   (IOMethod s \<noteq> IO_METHOD_UNKNOWN \<and>
    (IOMethod s = IO_METHOD_READ \<longrightarrow> FramesArray s \<noteq> [] \<and> k = 0) \<and> 0 < n \<and> e \<noteq> EINTR \<and>
    script w = Returns n # replicate k (Fails EINTR) @ Fails e # rest \<longrightarrow>
      InternalUpdate s w =
        Some (Inl (acquisition_error s e), s, acquisition_fails s n k e rest w) \<and>
      (acquisition_error s e = AcquireRecoverable \<longleftrightarrow> e = EAGAIN) \<and>
      (acquire_EAGAIN (acquisition s, Fails e) \<longleftrightarrow> e = EAGAIN))"
proof (rule conjI; rule impI)
  assume "InternalUpdate s w = Some (r, s', w')"
  then show "events w' = events w @ events_since w w' \<and>
     ((\<exists>ev\<in>set (events_since w w'). acquire_EAGAIN ev) \<longrightarrow>
        r = Inl AcquireRecoverable \<and> s' = s \<and> sink w' = sink w \<and> logged w' = logged w) \<and>
     (r = Inl AcquireRecoverable \<longrightarrow> (\<exists>ev\<in>set (events_since w w'). acquire_EAGAIN ev)) \<and>
     (\<forall>e. r = Inl e \<longrightarrow> s' = s) \<and>
     FileDescriptor s' = FileDescriptor s \<and>
     heap w' = heap w \<and> mappings w' = mappings w \<and> descriptors w' = descriptors w \<and>
     (\<forall>ev\<in>set (events_since w w'). \<not> tears_down (fst ev))"
    apply (clarsimp simp: InternalUpdate_def fail_def LOG_ERROR_def events_since_def
        split: Option.bind_splits sum.splits if_splits
        dest!: select_call_SomeD)
      apply (auto split: sum.splits dest!: ReadFrame_effect)
    done
next
  assume a: "IOMethod s \<noteq> IO_METHOD_UNKNOWN \<and>
    (IOMethod s = IO_METHOD_READ \<longrightarrow> FramesArray s \<noteq> [] \<and> k = 0) \<and> 0 < n \<and> e \<noteq> EINTR \<and>
    script w = Returns n # replicate k (Fails EINTR) @ Fails e # rest"
  then have "InternalUpdate s w =
        Some (Inl (acquisition_error s e), s, acquisition_fails s n k e rest w)"
    by (intro InternalUpdate_acquisition_fails) simp_all
  moreover have "acquisition_error s e = AcquireRecoverable \<longleftrightarrow> e = EAGAIN"
    by (simp add: acquisition_error_def split: V4L2_IO_METHOD.splits)
  moreover have "acquire_EAGAIN (acquisition s, Fails e) \<longleftrightarrow> e = EAGAIN"
    using a by (auto simp: acquire_EAGAIN_def acquisition_def split: V4L2_IO_METHOD.splits)
  ultimately show "InternalUpdate s w =
        Some (Inl (acquisition_error s e), s, acquisition_fails s n k e rest w) \<and>
      (acquisition_error s e = AcquireRecoverable \<longleftrightarrow> e = EAGAIN) \<and>
      (acquire_EAGAIN (acquisition s, Fails e) \<longleftrightarrow> e = EAGAIN)"
    by (intro conjI)
qed

theorem EAGAIN_leaves_session_witness:
  "InternalUpdate streaming (blank [Returns 1, Fails EINTR, Fails EAGAIN]) =
     Some (Inl AcquireRecoverable, streaming,
       (blank [])\<lparr>events :=
          [(Select 3 2, Returns 1), (acquisition streaming, Fails EINTR),
           (acquisition streaming, Fails EAGAIN)]\<rparr>)
   \<and> acquire_EAGAIN (acquisition streaming, Fails EAGAIN)
   \<and> InternalUpdate reading (blank [Returns 1, Fails EAGAIN]) =
     Some (Inl AcquireRecoverable, reading,
       (blank [])\<lparr>events := [(Select 3 2, Returns 1), (Read 3 0x2000 614400, Fails EAGAIN)]\<rparr>)
   \<and> acquire_EAGAIN (Read 3 0x2000 614400, Fails EAGAIN)
   \<and> InternalUpdate streaming (blank [Returns 1, Fails EIO]) =
     Some (Inl (IoctlFailed VIDIOC_DQBUF EIO), streaming,
       (blank [])\<lparr>events := [(Select 3 2, Returns 1), (acquisition streaming, Fails EIO)],
          logged := [IoctlFailed VIDIOC_DQBUF EIO]\<rparr>)
   \<and> (\<exists>ev\<in>set (events_since (blank [Returns 1, Fails EINTR, Fails EAGAIN])
          ((blank [])\<lparr>events :=
             [(Select 3 2, Returns 1), (acquisition streaming, Fails EINTR),
              (acquisition streaming, Fails EAGAIN)]\<rparr>)). acquire_EAGAIN ev)"
proof -
  let ?w = "blank [Returns 1, Fails EINTR, Fails EAGAIN]"
  let ?w' = "(blank [])\<lparr>events :=
          [(Select 3 2, Returns 1), (acquisition streaming, Fails EINTR),
           (acquisition streaming, Fails EAGAIN)]\<rparr>"
  let ?v = "blank [Returns 1, Fails EAGAIN]"
  let ?v' = "(blank [])\<lparr>events := [(Select 3 2, Returns 1), (Read 3 0x2000 614400, Fails EAGAIN)]\<rparr>"
  let ?u = "blank [Returns 1, Fails EIO]"
  let ?u' = "(blank [])\<lparr>events := [(Select 3 2, Returns 1), (acquisition streaming, Fails EIO)],
          logged := [IoctlFailed VIDIOC_DQBUF EIO]\<rparr>"
  note a = EAGAIN_leaves_session
    [of streaming ?w "Inl AcquireRecoverable" streaming ?w' 1 1 EAGAIN "[]"]
  note b = EAGAIN_leaves_session
    [of reading ?v "Inl AcquireRecoverable" reading ?v' 0 1 EAGAIN "[]"]
  note c = EAGAIN_leaves_session
    [of streaming ?u "Inl (IoctlFailed VIDIOC_DQBUF EIO)" streaming ?u' 0 1 EIO "[]"]
  have 1: "InternalUpdate streaming ?w = Some (Inl AcquireRecoverable, streaming, ?w')"
    using a by (simp add: blank_def streaming_def vtkPlusV4L2VideoSource_def
        acquisition_error_def acquisition_fails_def)
  have 2: "InternalUpdate reading ?v = Some (Inl AcquireRecoverable, reading, ?v')"
    using b by (simp add: blank_def reading_def vtkPlusV4L2VideoSource_def acquisition_def
        acquisition_error_def acquisition_fails_def)
  have 3: "acquire_EAGAIN (acquisition streaming, Fails EAGAIN)"
    using a by (simp add: blank_def streaming_def vtkPlusV4L2VideoSource_def)
  have 4: "acquire_EAGAIN (Read 3 0x2000 614400, Fails EAGAIN)"
    using b by (simp add: blank_def reading_def vtkPlusV4L2VideoSource_def acquisition_def)
  have 5: "InternalUpdate streaming ?u =
      Some (Inl (IoctlFailed VIDIOC_DQBUF EIO), streaming, ?u')"
    using c by (simp add: blank_def streaming_def vtkPlusV4L2VideoSource_def
        acquisition_error_def acquisition_fails_def LOG_ERROR_def)
  have 6: "\<exists>ev\<in>set (events_since ?w ?w'). acquire_EAGAIN ev"
    using a 1 by blast
  from 1 2 3 4 5 6 show ?thesis by simp
qed

lemma ReadFrame_queue:
  "IOMethod s = IO_METHOD_MMAP \<or> IOMethod s = IO_METHOD_USERPTR \<Longrightarrow>
   ReadFrame s w = Some (Inr (), s', w') \<Longrightarrow>
     \<exists>b es. events w' = events w @ es \<and> queue_trace es = [Dequeued b, Requeued b]"
  by (auto simp: ReadFrame_def requeue_def dequeue_def fail_def queue_op_of_def
      split: Option.bind_splits sum.splits arg.splits if_splits
      dest!: xioctl_SomeD)

lemma InternalUpdate_queue:
  assumes "IOMethod s = IO_METHOD_MMAP \<or> IOMethod s = IO_METHOD_USERPTR"
    and "InternalUpdate s w = Some (Inr (), s', w')"
  shows "s' = s\<lparr>FrameNumber := FrameNumber s + 1\<rparr> \<and> heap w' = heap w \<and> mappings w' = mappings w \<and>
     (\<exists>b es. events w' = events w @ es \<and> queue_trace es = [Dequeued b, Requeued b] \<and>
        (\<forall>ev\<in>set es. \<not> tears_down (fst ev)))"
proof -
  from assms(2) obtain n w1 s1 where
    sel: "select_call (FileDescriptor s) 2 w = Some (Inr n, w1)" and
    rf1: "ReadFrame s w1 = Some (Inr (), s1, w')" and s1: "s' = s1\<lparr>FrameNumber := FrameNumber s1 + 1\<rparr>"
    by (auto simp: InternalUpdate_def fail_def split: Option.bind_splits sum.splits if_splits)
  from ReadFrame_session [OF rf1] have "s1 = s" .
  with rf1 s1 have rf: "ReadFrame s w1 = Some (Inr (), s, w')"
    and s': "s' = s\<lparr>FrameNumber := FrameNumber s + 1\<rparr>"
    by simp_all
  from select_call_SomeD [OF sel] obtain rest where
    w1: "w1 = w\<lparr>script := rest, events := events w @ [(Select (FileDescriptor s) 2, Returns n)]\<rparr>"
    by auto
  from ReadFrame_queue [OF assms(1) rf] obtain b es where
    es: "events w' = events w1 @ es" "queue_trace es = [Dequeued b, Requeued b]"
    by blast
  from ReadFrame_effect [OF rf] obtain es' where
    es': "events w' = events w1 @ es'" "\<forall>ev\<in>set es'. \<not> tears_down (fst ev)"
      "heap w' = heap w1" "mappings w' = mappings w1"
    by blast
  from es(1) es'(1) have same: "es' = es" by simp
  have "events w' = events w @ (Select (FileDescriptor s) 2, Returns n) # es"
    using es(1) w1 by simp
  moreover have "queue_trace ((Select (FileDescriptor s) 2, Returns n) # es) = [Dequeued b, Requeued b]"
    using es(2) by (simp add: queue_op_of_def)
  moreover have "\<forall>ev\<in>set ((Select (FileDescriptor s) 2, Returns n) # es). \<not> tears_down (fst ev)"
    using es'(2) same by simp
  ultimately show ?thesis
    using s' es'(3,4) w1 by (intro conjI exI [of _ b] exI [of _ "(Select (FileDescriptor s) 2, Returns n) # es"]) simp_all
qed

lemma pairs_append [simp]: "pairs (xs @ ys) = pairs xs @ pairs ys"
  by (induction xs) simp_all

lemma requeued_pairs:
  "length (filter (\<lambda>x. case x of Requeued b \<Rightarrow> True | _ \<Rightarrow> False) (pairs bs)) = length bs"
  by (induction bs) simp_all

lemma requeues_pairs: "queue_trace es = pairs bs \<Longrightarrow> requeues es = length bs"
  by (simp add: requeues_def requeued_pairs)

lemma cycles_queue:
  "IOMethod s = IO_METHOD_MMAP \<or> IOMethod s = IO_METHOD_USERPTR \<Longrightarrow>
   cycles K s w = Some (s', w') \<Longrightarrow>
     FrameNumber s' = FrameNumber s + K \<and> heap w' = heap w \<and> mappings w' = mappings w \<and>
     (\<exists>bs es. events w' = events w @ es \<and> length bs = K \<and> queue_trace es = pairs bs \<and>
        (\<forall>ev\<in>set es. \<not> tears_down (fst ev)))"
proof (induction K arbitrary: s w)
  case 0
  then show ?case by (auto intro: exI [of _ "[]"])
next
  case (Suc K)
  from Suc.prems(2) obtain s1 w1 where
    up: "InternalUpdate s w = Some (Inr (), s1, w1)" and rest: "cycles K s1 w1 = Some (s', w')"
    by (auto split: option.splits sum.splits)
  from InternalUpdate_queue [OF Suc.prems(1) up] obtain b es where
    1: "s1 = s\<lparr>FrameNumber := FrameNumber s + 1\<rparr>" "heap w1 = heap w" "mappings w1 = mappings w"
       "events w1 = events w @ es" "queue_trace es = [Dequeued b, Requeued b]"
       "\<forall>ev\<in>set es. \<not> tears_down (fst ev)"
    by blast
  have mode: "IOMethod s1 = IO_METHOD_MMAP \<or> IOMethod s1 = IO_METHOD_USERPTR"
    using Suc.prems(1) 1(1) by simp
  from Suc.IH [OF mode rest] obtain bs es2 where
    2: "FrameNumber s' = FrameNumber s1 + K" "heap w' = heap w1" "mappings w' = mappings w1"
       "events w' = events w1 @ es2" "length bs = K" "queue_trace es2 = pairs bs"
       "\<forall>ev\<in>set es2. \<not> tears_down (fst ev)"
    by blast
  have "events w' = events w @ (es @ es2)" using 1(4) 2(4) by simp
  moreover have "length (b # bs) = Suc K" using 2(5) by simp
  moreover have "queue_trace (es @ es2) = pairs (b # bs)" using 1(5) 2(6) by simp
  moreover have "\<forall>ev\<in>set (es @ es2). \<not> tears_down (fst ev)" using 1(6) 2(7) by auto
  ultimately have "\<exists>bs es. events w' = events w @ es \<and> length bs = Suc K \<and>
      queue_trace es = pairs bs \<and> (\<forall>ev\<in>set es. \<not> tears_down (fst ev))"
    by blast
  then show ?case using 1(1,2,3) 2(1,2,3) by simp
qed

text \<open>
  C8. In the kernel-mapped and user-pointer modes, over \<open>K\<close> successful cycles in a row
  the queue operations are, for \<open>K\<close> descriptors, the dequeue of a descriptor followed by
  the requeue of that same descriptor: \<open>K\<close> requeues, each right after its own dequeue,
  never two requeues in a row; and no buffer is freed or unmapped on the way.
\<close>

theorem steady_state_requeues:
  "IOMethod s = IO_METHOD_MMAP \<or> IOMethod s = IO_METHOD_USERPTR \<Longrightarrow>
   cycles K s w = Some (s', w') \<Longrightarrow>
     events w' = events w @ events_since w w' \<and>
     (\<exists>bs. length bs = K \<and> queue_trace (events_since w w') = pairs bs) \<and>
     requeues (events_since w w') = K \<and>
     (\<forall>ev\<in>set (events_since w w'). \<not> tears_down (fst ev)) \<and>
     heap w' = heap w \<and> mappings w' = mappings w"
proof -
  assume a: "IOMethod s = IO_METHOD_MMAP \<or> IOMethod s = IO_METHOD_USERPTR"
    "cycles K s w = Some (s', w')"
  from cycles_queue [OF a] obtain bs es where
    1: "heap w' = heap w" "mappings w' = mappings w" "events w' = events w @ es"
       "length bs = K" "queue_trace es = pairs bs" "\<forall>ev\<in>set es. \<not> tears_down (fst ev)"
    by blast
  have es: "events_since w w' = es" using 1(3) by (simp add: events_since_def)
  show ?thesis
    using 1 requeues_pairs [OF 1(5)] unfolding es by auto
qed

theorem steady_state_requeues_witness:
  "\<exists>s' w'. cycles (Suc (Suc 0)) streaming
       (blank [Returns 1, Fills (Buffer (filled 0)), Fills (Buffer (filled 0)),
               Returns 1, Fails EINTR, Fills (Buffer (filled 1)), Fills (Buffer (filled 1))])
       = Some (s', w') \<and>
     requeues (events_since
       (blank [Returns 1, Fills (Buffer (filled 0)), Fills (Buffer (filled 0)),
               Returns 1, Fails EINTR, Fills (Buffer (filled 1)), Fills (Buffer (filled 1))]) w')
       = Suc (Suc 0) \<and>
     heap w' = {#} \<and> mappings w' = {#}"
proof -
  let ?w = "blank [Returns 1, Fills (Buffer (filled 0)), Fills (Buffer (filled 0)),
               Returns 1, Fails EINTR, Fills (Buffer (filled 1)), Fills (Buffer (filled 1))]"
  have mode: "IOMethod streaming = IO_METHOD_MMAP \<or> IOMethod streaming = IO_METHOD_USERPTR"
    by (simp add: streaming_def)
  have "\<exists>s' w'. cycles (Suc (Suc 0)) streaming ?w = Some (s', w')"
    by (simp add: stream_defs)
  then obtain s' w' where ev: "cycles (Suc (Suc 0)) streaming ?w = Some (s', w')"
    by blast
  from steady_state_requeues [OF mode ev] ev show ?thesis
    by (auto simp: blank_def)
qed

section \<open>One turn of each loop\<close>

lemma InitMmap_loop_done:
  "\<not> BufferCount s < n \<Longrightarrow> InitMmap_loop n s w = Some (Inr (), s, w)"
  by (subst InitMmap_loop.simps) simp

lemma InitMmap_loop_step:
  assumes "InitMmap_loop n s w = Some (r, s', w')" and "BufferCount s < n"
  obtains (query_fails) e w1 where
      "xioctl (FileDescriptor s) VIDIOC_QUERYBUF
         (Buffer \<lparr>index = BufferCount s, btype = V4L2_BUF_TYPE_VIDEO_CAPTURE,
            memory = V4L2_MEMORY_MMAP, blength = 0, m_offset = 0, m_userptr = 0\<rparr>) w
       = Some (Inl e, w1)"
      "r = Inl (IoctlFailed VIDIOC_QUERYBUF e)" "s' = s"
      "w' = LOG_ERROR (IoctlFailed VIDIOC_QUERYBUF e) w1"
  | (mapped) buf w1 m w2 s1 where
      "xioctl (FileDescriptor s) VIDIOC_QUERYBUF
         (Buffer \<lparr>index = BufferCount s, btype = V4L2_BUF_TYPE_VIDEO_CAPTURE,
            memory = V4L2_MEMORY_MMAP, blength = 0, m_offset = 0, m_userptr = 0\<rparr>) w
       = Some (Inr (Buffer buf), w1)"
      "mmap_call (blength buf) (FileDescriptor s) (m_offset buf) w1 = Some (m, w2)"
      "store_frame (BufferCount s)
         \<lparr>start = (case m of Inl e \<Rightarrow> MAP_FAILED | Inr p \<Rightarrow> p), length' = blength buf\<rparr> s
       = Some s1"
      "InitMmap_loop n (s1\<lparr>BufferCount := BufferCount s + 1\<rparr>)
         (case m of Inl e \<Rightarrow> LOG_ERROR (MmapFailed e) w2 | Inr p \<Rightarrow> w2) = Some (r, s', w')"
  using assms
  by (subst (asm) InitMmap_loop.simps)
     (auto simp: fail_def split: option.splits sum.splits arg.splits)

lemma InitUserp_loop_done:
  "\<not> BufferCount s < 4 \<Longrightarrow> InitUserp_loop b s w = Some (Inr (), s, w)"
  by (subst InitUserp_loop.simps) simp

lemma InitUserp_loop_step:
  assumes "InitUserp_loop b s w = Some (r, s', w')" and "BufferCount s < 4"
  obtains (out_of_memory) w1 where
      "malloc_call b w = Some (NULL, w1)"
      "store_frame (BufferCount s) \<lparr>start = NULL, length' = b\<rparr> s = Some s'"
      "r = Inl OutOfMemory" "w' = LOG_ERROR OutOfMemory w1"
  | (allocated) q w1 s1 where
      "malloc_call b w = Some (q, w1)" "q \<noteq> NULL"
      "store_frame (BufferCount s) \<lparr>start = q, length' = b\<rparr> s = Some s1"
      "InitUserp_loop b (s1\<lparr>BufferCount := BufferCount s + 1\<rparr>) w1 = Some (r, s', w')"
  using assms
  by (subst (asm) InitUserp_loop.simps)
     (auto simp: fail_def split: option.splits if_splits)

lemma munmap_loop_done:
  "\<not> i < BufferCount s \<Longrightarrow> munmap_loop i s w = Some (Inr (), w)"
  by (subst munmap_loop.simps) simp

lemma munmap_loop_step:
  assumes "munmap_loop i s w = Some (r, w')" and "i < BufferCount s"
  obtains (munmap_fails) fb e w1 where
      "frame_at s i = Some fb" "munmap_call (start fb) (length' fb) w = Some (Inl e, w1)"
      "r = Inl (MunmapFailed e)" "w' = LOG_ERROR (MunmapFailed e) w1"
  | (unmapped) fb w1 where
      "frame_at s i = Some fb" "munmap_call (start fb) (length' fb) w = Some (Inr (), w1)"
      "munmap_loop (i + 1) s w1 = Some (r, w')"
  using assms
  by (subst (asm) munmap_loop.simps)
     (auto split: option.splits sum.splits)

lemma free_loop_done:
  "\<not> i < BufferCount s \<Longrightarrow> free_loop i s w = Some w"
  by (subst free_loop.simps) simp

lemma free_loop_step:
  assumes "free_loop i s w = Some w'" and "i < BufferCount s"
  obtains fb w1 where
      "frame_at s i = Some fb" "free_call (start fb) w = Some w1"
      "free_loop (i + 1) s w1 = Some w'"
  using assms
  by (subst (asm) free_loop.simps)
     (auto split: option.splits)

lemma queue_loop_done:
  "\<not> i < BufferCount s \<Longrightarrow> queue_loop i s w = Some (Inr (), s, w)"
  by (subst queue_loop.simps) simp

lemma queue_loop_step:
  assumes "queue_loop i s w = Some (r, s', w')" and "i < BufferCount s"
  obtains (queue_fails) buf e w1 where
      "start_descriptor s i = Some buf"
      "xioctl (FileDescriptor s) VIDIOC_QBUF (Buffer buf) w = Some (Inl e, w1)"
      "r = Inl (IoctlFailed VIDIOC_QBUF e)" "s' = s" "w' = LOG_ERROR (IoctlFailed VIDIOC_QBUF e) w1"
  | (queued) buf a w1 where
      "start_descriptor s i = Some buf"
      "xioctl (FileDescriptor s) VIDIOC_QBUF (Buffer buf) w = Some (Inr a, w1)"
      "queue_loop (i + 1) s w1 = Some (r, s', w')"
proof -
  from assms have
    "(case start_descriptor s i of
           None \<Rightarrow> None
         | Some buf \<Rightarrow>
             (case xioctl (FileDescriptor s) VIDIOC_QBUF (Buffer buf) w of
                None \<Rightarrow> None
              | Some (r, w1) \<Rightarrow>
                  (case r of
                     Inl e \<Rightarrow> fail (IoctlFailed VIDIOC_QBUF e) s w1
                   | Inr a \<Rightarrow> queue_loop (i + 1) s w1))) = Some (r, s', w')"
    by (subst (asm) queue_loop.simps) simp
  then obtain buf r1 w1 where
    1: "start_descriptor s i = Some buf"
       "xioctl (FileDescriptor s) VIDIOC_QBUF (Buffer buf) w = Some (r1, w1)"
       "(case r1 of Inl e \<Rightarrow> fail (IoctlFailed VIDIOC_QBUF e) s w1
           | Inr a \<Rightarrow> queue_loop (i + 1) s w1) = Some (r, s', w')"
    by (auto split: option.splits)
  show thesis
  proof (cases r1)
    case (Inl e)
    with 1 show thesis by (intro queue_fails [of buf e w1]) (auto simp: fail_def)
  next
    case (Inr a)
    with 1 show thesis by (intro queued [of buf a w1]) auto
  qed
qed

lemma enumerate_formats_step:
  assumes "enumerate_formats fd i w = Some w'"
  obtains (stop) e where "ioctl fd VIDIOC_ENUM_FMT (FmtDesc i) w = Some (Inl e, w')"
  | (more) j w1 where "ioctl fd VIDIOC_ENUM_FMT (FmtDesc i) w = Some (Inr (FmtDesc j), w1)"
      "enumerate_formats fd (j + 1) w1 = Some w'"
  using assms
  by (subst (asm) enumerate_formats.simps)
     (auto split: option.splits sum.splits arg.splits)

section \<open>Interrupted requests\<close>

lemma retried_skip [simp]: "\<not> interrupted ev \<Longrightarrow> retried (ev # es) = retried es"
  by (cases es) simp_all

lemma retried_replicate [simp]:
  "retried (replicate n (Ioctl fd rq a, Fails EINTR) @ (Ioctl fd rq a, x) # es)
     = retried ((Ioctl fd rq a, x) # es)"
proof (induction n)
  case 0
  show ?case by simp
next
  case (Suc n)
  obtain ev' rest where
    eq: "replicate n (Ioctl fd rq a, Fails EINTR) @ (Ioctl fd rq a, x) # es = ev' # rest"
    and f: "fst ev' = Ioctl fd rq a"
    by (cases n) auto
  have "retried ((Ioctl fd rq a, Fails EINTR) # ev' # rest) = retried (ev' # rest)"
    using f by simp
  with Suc eq show ?case by simp
qed

lemma retried_append [simp]: "retried xs \<Longrightarrow> retried (xs @ ys) = retried ys"
proof (induction xs rule: retried.induct)
  case (2 ev)
  then show ?case by simp
qed simp_all

lemma interrupted_simps [simp]:
  "interrupted (Ioctl fd rq a, answer_of r) = (r = Inl EINTR \<and> rq \<noteq> VIDIOC_ENUM_FMT)"
  "\<not> interrupted (Ioctl fd VIDIOC_ENUM_FMT a, x)"
  "\<not> interrupted (Stat p, x)" "\<not> interrupted (Open p, x)" "\<not> interrupted (Calloc n, x)"
  "\<not> interrupted (Malloc n, x)" "\<not> interrupted (Free q, x)" "\<not> interrupted (Mmap l fd' off, x)"
  "\<not> interrupted (Munmap q l, x)" "\<not> interrupted (Close fd', x)" "\<not> interrupted (Select fd' t, x)"
  "\<not> interrupted (Read fd' q l, x)"
  by (cases r; auto simp: interrupted_def split: answer.splits)+

lemma interrupted_answers [simp]:
  "interrupted (Ioctl fd rq a, Fails e) = (e = EINTR \<and> rq \<noteq> VIDIOC_ENUM_FMT)"
  "\<not> interrupted (c, Fills y)" "\<not> interrupted (c, Returns n)" "\<not> interrupted (c, Pointer q)"
  "\<not> interrupted (c, CharDevice b)" "\<not> interrupted (c, Void)"
  by (auto simp: interrupted_def split: call.splits)

lemmas ner_defs = no_EINTR_reported_def quiet_def fail_def LOG_ERROR_def reports_EINTR_def

lemma quiet_refl [simp]: "quiet w w"
  by (simp add: quiet_def)

lemma quiet_trans: "quiet w w1 \<Longrightarrow> quiet w1 w2 \<Longrightarrow> quiet w w2"
  by (auto simp: quiet_def)

lemma ner_trans: "quiet w w1 \<Longrightarrow> no_EINTR_reported r w1 w2 \<Longrightarrow> no_EINTR_reported r w w2"
  by (auto simp: no_EINTR_reported_def quiet_def)

lemma quiet_log [simp]: "\<not> reports_EINTR e \<Longrightarrow> quiet w (LOG_ERROR e w)"
  by (simp add: quiet_def LOG_ERROR_def)

lemma quiet_xioctl: "xioctl fh rq a w = Some (r, w') \<Longrightarrow> quiet w w'"
  by (auto simp: quiet_def dest!: xioctl_SomeD)

lemma quiet_mmap: "mmap_call len fd off w = Some (r, w') \<Longrightarrow> quiet w w'"
  by (auto simp: quiet_def split: sum.splits dest!: mmap_call_SomeD)

lemma quiet_malloc: "malloc_call n w = Some (p, w') \<Longrightarrow> quiet w w'"
  by (auto simp: quiet_def dest!: malloc_call_SomeD)

lemma quiet_calloc: "calloc_call n w = Some (p, w') \<Longrightarrow> quiet w w'"
  by (auto simp: quiet_def dest!: calloc_call_SomeD)

lemma quiet_ioctl_enum: "ioctl fd VIDIOC_ENUM_FMT a w = Some (r, w') \<Longrightarrow> quiet w w'"
  by (auto simp: quiet_def dest!: ioctl_SomeD)

lemma xioctl_fail_ner:
  "xioctl fh rq a w = Some (Inl e, w1) \<Longrightarrow>
   no_EINTR_reported (Inl (IoctlFailed rq' e)) w (LOG_ERROR (IoctlFailed rq' e) w1)"
  by (auto simp: ner_defs dest!: xioctl_SomeD)

lemma InitRead_ner: "InitRead b s w = Some (r, s', w') \<Longrightarrow> no_EINTR_reported r w w'"
  by (auto simp: InitRead_def Let_def ner_defs store_frame_def
      split: Option.bind_splits if_splits dest!: calloc_call_SomeD malloc_call_SomeD)

lemma InitMmap_loop_ner:
  "InitMmap_loop n s w = Some (r, s', w') \<Longrightarrow> no_EINTR_reported r w w'"
proof (induction k \<equiv> "n - BufferCount s" arbitrary: s w)
  case 0
  then have "\<not> BufferCount s < n" by simp
  with "0.prems" show ?case by (auto simp: InitMmap_loop_done no_EINTR_reported_def)
next
  case (Suc k)
  then have lt: "BufferCount s < n" by simp
  from Suc.prems lt show ?case
  proof (cases rule: InitMmap_loop_step)
    case (query_fails e w1)
    then show ?thesis by (simp add: xioctl_fail_ner)
  next
    case (mapped buf w1 m w2 s1)
    have bc: "BufferCount s1 = BufferCount s"
      using mapped(3) by (auto simp: store_frame_def split: if_splits)
    have "k = n - BufferCount (s1\<lparr>BufferCount := BufferCount s + 1\<rparr>)"
      using Suc.hyps(2) by simp
    from Suc.hyps(1) [OF this mapped(4)]
    have rec: "no_EINTR_reported r (case m of Inl e \<Rightarrow> LOG_ERROR (MmapFailed e) w2 | Inr p \<Rightarrow> w2) w'" .
    have "quiet w w1" using mapped(1) by (rule quiet_xioctl)
    moreover have "quiet w1 w2" using mapped(2) by (rule quiet_mmap)
    moreover have "quiet w2 (case m of Inl e \<Rightarrow> LOG_ERROR (MmapFailed e) w2 | Inr p \<Rightarrow> w2)"
      by (cases m) (simp_all add: reports_EINTR_def)
    ultimately show ?thesis using rec by (blast intro: ner_trans quiet_trans)
  qed
qed

lemma InitMmap_ner: "InitMmap s w = Some (r, s', w') \<Longrightarrow> no_EINTR_reported r w w'"
  by (auto simp: InitMmap_def Let_def ner_defs
      split: Option.bind_splits sum.splits arg.splits if_splits
      dest!: xioctl_SomeD calloc_call_SomeD InitMmap_loop_ner)

lemma InitUserp_loop_ner:
  "InitUserp_loop b s w = Some (r, s', w') \<Longrightarrow> no_EINTR_reported r w w'"
proof (induction k \<equiv> "4 - BufferCount s" arbitrary: s w)
  case 0
  then have "\<not> BufferCount s < 4" by simp
  with "0.prems" show ?case by (auto simp: InitUserp_loop_done no_EINTR_reported_def)
next
  case (Suc k)
  then have lt: "BufferCount s < 4" by simp
  from Suc.prems lt show ?case
  proof (cases rule: InitUserp_loop_step)
    case (out_of_memory w1)
    then show ?thesis by (auto simp: ner_defs dest!: malloc_call_SomeD)
  next
    case (allocated q w1 s1)
    have bc: "BufferCount s1 = BufferCount s"
      using allocated(3) by (auto simp: store_frame_def split: if_splits)
    have "k = 4 - BufferCount (s1\<lparr>BufferCount := BufferCount s + 1\<rparr>)"
      using Suc.hyps(2) by simp
    from Suc.hyps(1) [OF this allocated(4)] quiet_malloc [OF allocated(1)]
    show ?thesis by (blast intro: ner_trans)
  qed
qed

lemma InitUserp_ner: "InitUserp b s w = Some (r, s', w') \<Longrightarrow> no_EINTR_reported r w w'"
  by (auto simp: InitUserp_def Let_def ner_defs
      split: Option.bind_splits sum.splits arg.splits if_splits
      dest!: xioctl_SomeD calloc_call_SomeD InitUserp_loop_ner)

lemma Connect_buffers_ner:
  "Connect_buffers s w = Some (r, s', w') \<Longrightarrow> no_EINTR_reported r w w'"
  by (auto simp: Connect_buffers_def split: V4L2_IO_METHOD.splits
      dest: InitRead_ner InitMmap_ner InitUserp_ner)
     (simp add: ner_defs)

lemma Connect_format_ner:
  "Connect_format s w = Some (r, s', w') \<Longrightarrow> no_EINTR_reported r w w'"
  by (auto simp: Connect_format_def Let_def ner_defs
      split: Option.bind_splits sum.splits arg.splits if_splits
      dest!: xioctl_SomeD Connect_buffers_ner)

lemma Connect_crop_ner:
  "Connect_crop s w = Some (r, s', w') \<Longrightarrow> no_EINTR_reported r w w'"
  by (auto simp: Connect_crop_def Let_def ner_defs
      split: Option.bind_splits sum.splits arg.splits if_splits
      dest!: xioctl_SomeD Connect_format_ner)

lemma enumerate_formats_quiet:
  "enumerate_formats fd i w = Some w' \<Longrightarrow> quiet w w'"
proof (induction k \<equiv> "length (script w)" arbitrary: i w rule: less_induct)
  case less
  from less.prems show ?case
  proof (cases rule: enumerate_formats_step)
    case (stop e)
    then show ?thesis by (rule quiet_ioctl_enum)
  next
    case (more j w1)
    have "length (script w1) < length (script w)"
      using more(1) by (auto dest!: ioctl_SomeD)
    from less.hyps [OF this more(2)] quiet_ioctl_enum [OF more(1)]
    show ?thesis by (rule quiet_trans [rotated])
  qed
qed

lemma PrintSelf_quiet: "PrintSelf s w = Some w' \<Longrightarrow> quiet w w'"
  by (auto simp: PrintSelf_def split: if_splits dest: enumerate_formats_quiet)

lemma Connect_capabilities_ner:
  assumes "Connect_capabilities debug s w = Some (r, s', w')"
  shows "no_EINTR_reported r w w'"
proof -
  from assms obtain q w1 where
    q: "xioctl (FileDescriptor s) VIDIOC_QUERYCAP (Capability 0) w = Some (q, w1)"
    by (auto simp: Connect_capabilities_def split: Option.bind_splits)
  have q1: "quiet w w1" using q by (rule quiet_xioctl)
  show ?thesis
  proof (cases q)
    case (Inl e)
    with assms q show ?thesis
      by (auto simp: Connect_capabilities_def fail_def xioctl_fail_ner)
  next
    case (Inr a)
    show ?thesis
    proof (cases "\<exists>c. a = Capability c \<and> c AND V4L2_CAP_VIDEO_CAPTURE \<noteq> 0")
      case False
      with assms q Inr have "r = Inl NotACaptureDevice \<and> w' = LOG_ERROR NotACaptureDevice w1"
        by (auto simp: Connect_capabilities_def fail_def split: arg.splits if_splits)
      with q1 show ?thesis by (auto simp: ner_defs)
    next
      case True
      then obtain c where c: "a = Capability c" "c AND V4L2_CAP_VIDEO_CAPTURE \<noteq> 0" by blast
      with assms q Inr obtain w2 where
        w2: "(if debug then PrintSelf s w1 else Some w1) = Some w2" and
        fin: "(r = Inl UnsupportedTransport \<and> w' = LOG_ERROR UnsupportedTransport w2)
              \<or> Connect_crop s w2 = Some (r, s', w')"
        by (auto simp: Connect_capabilities_def fail_def
            split: Option.bind_splits V4L2_IO_METHOD.splits if_splits)
      have q2: "quiet w1 w2" using w2 by (auto split: if_splits dest: PrintSelf_quiet)
      from fin have "no_EINTR_reported r w2 w'"
        by (auto simp: ner_defs dest: Connect_crop_ner)
      with q1 q2 show ?thesis by (blast intro: ner_trans)
    qed
  qed
qed

lemma InternalConnect_ner:
  "InternalConnect debug s w = Some (r, s', w') \<Longrightarrow> no_EINTR_reported r w w'"
  by (auto simp: InternalConnect_def ner_defs
      split: Option.bind_splits sum.splits if_splits
      dest!: stat_call_SomeD open_call_SomeD Connect_capabilities_ner)

lemma ReadFrame_ner:
  "ReadFrame s w = Some (r, s', w') \<Longrightarrow> no_EINTR_reported r w w'"
  by (cases "IOMethod s")
     (auto simp: ReadFrame_def requeue_def dequeue_def ner_defs
      split: Option.bind_splits sum.splits arg.splits if_splits
      dest!: xioctl_SomeD read_call_SomeD)

lemma InternalUpdate_ner:
  "InternalUpdate s w = Some (r, s', w') \<Longrightarrow> no_EINTR_reported r w w'"
  by (auto simp: InternalUpdate_def ner_defs
      split: Option.bind_splits sum.splits if_splits
      dest!: select_call_SomeD ReadFrame_ner)

lemma InternalStopRecording_ner:
  "InternalStopRecording s w = Some (r, s', w') \<Longrightarrow> no_EINTR_reported r w w'"
  by (cases "IOMethod s")
     (auto simp: InternalStopRecording_def stream_off_def ner_defs
      split: Option.bind_splits sum.splits dest!: xioctl_SomeD)

lemma queue_loop_ner:
  "queue_loop i s w = Some (r, s', w') \<Longrightarrow> no_EINTR_reported r w w'"
proof (induction k \<equiv> "BufferCount s - i" arbitrary: i w)
  case 0
  then have "\<not> i < BufferCount s" by simp
  with "0.prems" show ?case by (auto simp: queue_loop_done no_EINTR_reported_def)
next
  case (Suc k)
  then have lt: "i < BufferCount s" by simp
  from Suc.prems lt show ?case
  proof (cases rule: queue_loop_step)
    case (queue_fails buf e w1)
    then show ?thesis by (simp add: xioctl_fail_ner)
  next
    case (queued buf a w1)
    have "k = BufferCount s - (i + 1)" using Suc.hyps(2) by simp
    from Suc.hyps(1) [OF this queued(3)] quiet_xioctl [OF queued(2)]
    show ?thesis by (blast intro: ner_trans)
  qed
qed

lemma stream_on_ner:
  "stream_on s w = Some (r, s', w') \<Longrightarrow> no_EINTR_reported r w w'"
  by (auto simp: stream_on_def ner_defs
      split: Option.bind_splits sum.splits
      dest!: queue_loop_ner xioctl_SomeD)

lemma InternalStartRecording_ner:
  "InternalStartRecording s w = Some (r, s', w') \<Longrightarrow> no_EINTR_reported r w w'"
  by (cases "IOMethod s")
     (auto simp: InternalStartRecording_def no_EINTR_reported_def dest: stream_on_ner)

lemmas connect_defs = InternalConnect_def Connect_capabilities_def Connect_crop_def
  Connect_format_def Connect_buffers_def InitRead_def InitMmap_def InitUserp_def
  PrintSelf_def enumerate_formats.simps InitMmap_loop.simps InitUserp_loop.simps
  stat_call_def open_call_def calloc_call_def malloc_call_def mmap_call_def
  xioctl.simps ioctl_def syscall_def fail_def LOG_ERROR_def store_frame_def zeroed_def
  forced_def blank_def fresh_def vtkPlusV4L2VideoSource_def NULL_def MAP_FAILED_def
  V4L2_CAP_VIDEO_CAPTURE_def V4L2_CAP_READWRITE_def V4L2_CAP_STREAMING_def

lemmas cycle_stream_defs = InternalUpdate_def select_call_def syscall_def blank_def streaming_def
  reading_def vtkPlusV4L2VideoSource_def ReadFrame_def frame_at_def read_call_def
  dequeue_def requeue_def xioctl.simps ioctl_def fail_def LOG_ERROR_def

text \<open>
  C10, as amended. \<^verbatim>\<open>xioctl\<close> returns exactly when the kernel, after any number of
  answers \<^verbatim>\<open>EINTR\<close>, gives another answer; it asks again with the same request after
  every \<^verbatim>\<open>EINTR\<close>, and what it returns is that first other answer, never \<^verbatim>\<open>EINTR\<close>.
  \<^verbatim>\<open>InternalConnect\<close>, \<^verbatim>\<open>InternalStartRecording\<close>, \<^verbatim>\<open>InternalStopRecording\<close> and
  \<^verbatim>\<open>InternalUpdate\<close> send every device-control request through \<^verbatim>\<open>xioctl\<close>, the format
  enumeration of \<^verbatim>\<open>PrintSelf\<close> apart: each interrupted request among their events is
  followed at once by the same call, and neither their status nor their log reports a
  device-control request that failed with \<^verbatim>\<open>EINTR\<close>.
\<close>

theorem xioctl_retries_EINTR:
  "(xioctl fh rq a w = Some (r, w') \<longleftrightarrow>
      r \<noteq> Inl EINTR \<and>
      (\<exists>n rest. script w = replicate n (Fails EINTR) @ answer_of r # rest \<and>
         w' = w\<lparr>script := rest,
                events := events w @ replicate n (Ioctl fh rq a, Fails EINTR)
                            @ [(Ioctl fh rq a, answer_of r)]\<rparr>)) \<and>
   (InternalConnect debug s w = Some (st, s', w'') \<longrightarrow> no_EINTR_reported st w w'') \<and>
   (InternalStartRecording s w = Some (st, s', w'') \<longrightarrow> no_EINTR_reported st w w'') \<and>
   (InternalStopRecording s w = Some (st, s', w'') \<longrightarrow> no_EINTR_reported st w w'') \<and>
   (InternalUpdate s w = Some (st, s', w'') \<longrightarrow> no_EINTR_reported st w w'')"
  using xioctl_SomeD [of fh rq a w r w'] xioctl_returns [of w _ r _ fh rq a]
    InternalConnect_ner [of debug s w st s' w''] InternalStartRecording_ner [of s w st s' w'']
    InternalStopRecording_ner [of s w st s' w''] InternalUpdate_ner [of s w st s' w'']
  by blast

theorem xioctl_retries_EINTR_witness:
  "xioctl 3 VIDIOC_DQBUF (BufType 1) (blank [Fails EINTR, Fails EINTR, Fills (Buffer (filled 0))])
     = Some (Inr (Buffer (filled 0)),
         (blank [Fails EINTR, Fails EINTR, Fills (Buffer (filled 0))])
           \<lparr>script := [],
            events := events (blank [Fails EINTR, Fails EINTR, Fills (Buffer (filled 0))])
              @ replicate (Suc (Suc 0)) (Ioctl 3 VIDIOC_DQBUF (BufType 1), Fails EINTR)
              @ [(Ioctl 3 VIDIOC_DQBUF (BufType 1), answer_of (Inr (Buffer (filled 0))))]\<rparr>)
   \<and> (\<exists>st s' w''.
        InternalUpdate streaming
          (blank [Returns 1, Fails EINTR, Fills (Buffer (filled 0)), Fills (Buffer (filled 0))])
          = Some (st, s', w'') \<and>
        no_EINTR_reported st
          (blank [Returns 1, Fails EINTR, Fills (Buffer (filled 0)), Fills (Buffer (filled 0))]) w'')"
proof -
  let ?w = "blank [Fails EINTR, Fails EINTR, Fills (Buffer (filled 0))]"
  let ?r = "Inr (Buffer (filled 0)) :: errno + arg"
  let ?v = "blank [Returns 1, Fails EINTR, Fills (Buffer (filled 0)), Fills (Buffer (filled 0))]"
  have sc: "script ?w = replicate (Suc (Suc 0)) (Fails EINTR) @ answer_of ?r # []"
    by (simp add: blank_def)
  have "\<exists>st s' w''. InternalUpdate streaming ?v = Some (st, s', w'')"
    by (simp add: cycle_stream_defs)
  then obtain st s' w'' where up: "InternalUpdate streaming ?v = Some (st, s', w'')"
    by blast
  note th1 = xioctl_retries_EINTR [where fh = 3 and rq = VIDIOC_DQBUF and a = "BufType 1"
      and w = ?w and r = ?r and w' = "?w\<lparr>script := [], events := events ?w
          @ replicate (Suc (Suc 0)) (Ioctl 3 VIDIOC_DQBUF (BufType 1), Fails EINTR)
          @ [(Ioctl 3 VIDIOC_DQBUF (BufType 1), answer_of ?r)]\<rparr>"]
  note th2 = xioctl_retries_EINTR [where w = ?v and s = streaming and st = st and s' = s'
      and w'' = w'']
  from th1 sc have "xioctl 3 VIDIOC_DQBUF (BufType 1) ?w = Some (?r,
      ?w\<lparr>script := [], events := events ?w
          @ replicate (Suc (Suc 0)) (Ioctl 3 VIDIOC_DQBUF (BufType 1), Fails EINTR)
          @ [(Ioctl 3 VIDIOC_DQBUF (BufType 1), answer_of ?r)]\<rparr>)"
    by blast
  moreover from th2 up have "no_EINTR_reported st ?v w''"
    by blast
  ultimately show ?thesis using up by blast
qed

text \<open>
  The claim as it stands fails twice. An update cycle in direct-read mode whose
  \<^verbatim>\<open>read\<close> is interrupted reports that failure, after one call of \<^verbatim>\<open>read\<close>. And a
  \<^verbatim>\<open>_DEBUG\<close> build enumerates the formats during \<^verbatim>\<open>InternalConnect\<close> with \<^verbatim>\<open>ioctl\<close>
  itself: an interrupted \<^verbatim>\<open>VIDIOC_ENUM_FMT\<close> is not asked again.
\<close>

theorem EINTR_surfaces:
  "InternalUpdate reading (blank [Returns 1, Fails EINTR]) =
     Some (Inl (ReadFailed EINTR), reading,
       (blank [])\<lparr>events := [(Select 3 2, Returns 1), (Read 3 0x2000 614400, Fails EINTR)],
                  logged := [ReadFailed EINTR]\<rparr>)
   \<and> map_option (\<lambda>(r, s', w'). (r, filter is_ENUM_FMT (events w')))
       (InternalConnect True fresh
         (blank [CharDevice True, Returns 3, Fills (Capability 0x05000001), Fails EINTR,
                 Fails EINVAL, Fills (Format hd_format), Fills (Format vga_format),
                 Pointer 0x1000, Pointer 0x2000]))
     = Some (Inr (), [(Ioctl 3 VIDIOC_ENUM_FMT (FmtDesc 0), Fails EINTR)])"
proof -
  have "InternalUpdate reading (blank [Returns 1, Fails EINTR]) =
     Some (Inl (ReadFailed EINTR), reading,
       (blank [])\<lparr>events := [(Select 3 2, Returns 1), (Read 3 0x2000 614400, Fails EINTR)],
                  logged := [ReadFailed EINTR]\<rparr>)"
    by (simp add: cycle_stream_defs)
  moreover have "map_option (\<lambda>(r, s', w'). (r, filter is_ENUM_FMT (events w')))
       (InternalConnect True fresh
         (blank [CharDevice True, Returns 3, Fills (Capability 0x05000001), Fails EINTR,
                 Fails EINVAL, Fills (Format hd_format), Fills (Format vga_format),
                 Pointer 0x1000, Pointer 0x2000]))
     = Some (Inr (), [(Ioctl 3 VIDIOC_ENUM_FMT (FmtDesc 0), Fails EINTR)])"
    by (simp add: connect_defs Let_def is_ENUM_FMT_def)
  ultimately show ?thesis by (rule conjI)
qed

section \<open>Buffer initialisation\<close>

lemma mallocs_simps [simp]:
  "mallocs [] = []"
  "mallocs (xs @ ys) = mallocs xs @ mallocs ys"
  "mallocs ((Malloc n, a) # es) = n # mallocs es"
  "mallocs ((Calloc n, a) # es) = mallocs es"
  "mallocs ((Ioctl fd rq x, a) # es) = mallocs es"
  by (simp_all add: mallocs_def List.map_filter_def)

lemma mallocs_replicate_ioctl [simp]: "mallocs (replicate n (Ioctl fd rq x, a)) = []"
  by (induction n) simp_all

lemma store_frame_SomeD:
  "store_frame i fb s = Some s1 \<Longrightarrow>
     i < length (FramesArray s) \<and> s1 = s\<lparr>FramesArray := (FramesArray s)[i := fb]\<rparr>"
  by (auto simp: store_frame_def split: if_splits)

lemma InitUserp_loop_success:
  "InitUserp_loop b s w = Some (Inr (), s', w') \<Longrightarrow>
     BufferCount s \<le> 4 \<Longrightarrow> length (FramesArray s) = 4 \<Longrightarrow>
     BufferCount s' = 4 \<and> length (FramesArray s') = 4 \<and>
     s' = s\<lparr>FramesArray := FramesArray s', BufferCount := 4\<rparr> \<and>
     take (BufferCount s) (FramesArray s') = take (BufferCount s) (FramesArray s) \<and>
     (\<forall>fb\<in>set (drop (BufferCount s) (FramesArray s')). length' fb = b \<and> start fb \<noteq> NULL) \<and>
     heap w' = heap w + mset (map start (drop (BufferCount s) (FramesArray s'))) \<and>
     mappings w' = mappings w \<and> descriptors w' = descriptors w \<and>
     (\<exists>es. events w' = events w @ es \<and> mallocs es = replicate (4 - BufferCount s) b)"
proof (induction k \<equiv> "4 - BufferCount s" arbitrary: s w)
  case 0
  then have "\<not> BufferCount s < 4" by simp
  with "0.prems" have "s' = s" "w' = w" "BufferCount s = 4"
    by (auto simp: InitUserp_loop_done)
  with "0.prems" show ?case by simp
next
  case (Suc k)
  then have lt: "BufferCount s < 4" by simp
  from Suc.prems(1) lt show ?case
  proof (cases rule: InitUserp_loop_step)
    case (out_of_memory w1)
    then show ?thesis by simp
  next
    case (allocated q w1 s1)
    let ?i = "BufferCount s"
    let ?s2 = "s1\<lparr>BufferCount := ?i + 1\<rparr>"
    from store_frame_SomeD [OF allocated(3)]
    have s1: "s1 = s\<lparr>FramesArray := (FramesArray s)[?i := \<lparr>start = q, length' = b\<rparr>]\<rparr>"
      by simp
    from malloc_call_SomeD [OF allocated(1)] allocated(2) obtain rest where
      w1: "w1 = w\<lparr>script := rest, events := events w @ [(Malloc b, Pointer q)],
                  heap := add_mset q (heap w)\<rparr>"
      by auto
    have k: "k = 4 - BufferCount ?s2" using Suc.hyps(2) by simp
    have le: "BufferCount ?s2 \<le> 4" using lt by simp
    have len: "length (FramesArray ?s2) = 4" using Suc.prems(3) s1 by simp
    from Suc.hyps(1) [OF k allocated(4) le len] obtain es where
      ih: "BufferCount s' = 4" "length (FramesArray s') = 4"
          "s' = ?s2\<lparr>FramesArray := FramesArray s', BufferCount := 4\<rparr>"
          "take (?i + 1) (FramesArray s') = take (?i + 1) (FramesArray ?s2)"
          "\<forall>fb\<in>set (drop (?i + 1) (FramesArray s')). length' fb = b \<and> start fb \<noteq> NULL"
          "heap w' = heap w1 + mset (map start (drop (?i + 1) (FramesArray s')))"
          "mappings w' = mappings w1" "descriptors w' = descriptors w1"
          "events w' = events w1 @ es" "mallocs es = replicate (4 - (?i + 1)) b"
      by auto
    have i4: "?i < length (FramesArray s')" "?i < length (FramesArray s)"
      using lt ih(2) Suc.prems(3) by simp_all
    have "FramesArray s' ! ?i = take (?i + 1) (FramesArray s') ! ?i" by simp
    also have "\<dots> = take (?i + 1) (FramesArray ?s2) ! ?i" by (simp only: ih(4))
    also have "\<dots> = \<lparr>start = q, length' = b\<rparr>" using i4 s1 by simp
    finally have at: "FramesArray s' ! ?i = \<lparr>start = q, length' = b\<rparr>" .
    have dr: "drop ?i (FramesArray s') = \<lparr>start = q, length' = b\<rparr> # drop (?i + 1) (FramesArray s')"
      using Cons_nth_drop_Suc [OF i4(1)] at by simp
    have "take ?i (FramesArray s') = take ?i (take (?i + 1) (FramesArray s'))" by simp
    also have "\<dots> = take ?i (take (?i + 1) (FramesArray ?s2))" by (simp only: ih(4))
    also have "\<dots> = take ?i (FramesArray s)" using s1 by simp
    finally have tk: "take ?i (FramesArray s') = take ?i (FramesArray s)" .
    have "s' = s\<lparr>FramesArray := FramesArray s', BufferCount := 4\<rparr>"
      using ih(3) s1 by simp
    moreover have "\<forall>fb\<in>set (drop ?i (FramesArray s')). length' fb = b \<and> start fb \<noteq> NULL"
      using ih(5) allocated(2) dr by simp
    moreover have "heap w' = heap w + mset (map start (drop ?i (FramesArray s')))"
      using ih(6) w1 dr by simp
    moreover have "events w' = events w @ ((Malloc b, Pointer q) # es)"
      using ih(9) w1 by simp
    moreover have "mallocs ((Malloc b, Pointer q) # es) = replicate (4 - ?i) b"
      using ih(10) lt by (simp add: Suc_diff_Suc replicate_Suc [symmetric] del: replicate_Suc)
    ultimately show ?thesis
      using ih(1,2,7,8) tk w1 by auto
  qed
qed

lemma replicate_4: "replicate 4 x = [x, x, x, x]"
  by (simp add: numeral_eq_Suc)

lemmas userp_defs = replicate_4 InitUserp_def InitUserp_loop.simps calloc_call_def malloc_call_def
  xioctl.simps ioctl_def syscall_def fail_def LOG_ERROR_def store_frame_def zeroed_def
  blank_def fresh_def vtkPlusV4L2VideoSource_def NULL_def Let_def

text \<open>
  C9. Whenever the user-pointer initialisation succeeds, \<^verbatim>\<open>malloc\<close> was called exactly
  four times, each time for \<open>bufferSize\<close> bytes, the four frame buffers hold the four
  blocks with that length, they and the container are what the heap has gained, and
  \<open>BufferCount\<close> is 4. The answer of the kernel to \<^verbatim>\<open>VIDIOC_REQBUFS\<close> is not looked
  at: the statement holds for every script, and the witness is a kernel that grants
  one buffer.
\<close>

theorem InitUserp_four_buffers:
  "InitUserp bufferSize s w = Some (Inr (), s', w') \<Longrightarrow>
     BufferCount s' = 4 \<and> length (FramesArray s') = 4 \<and>
     (\<forall>fb\<in>set (FramesArray s'). length' fb = bufferSize \<and> start fb \<noteq> NULL) \<and>
     Frames s' \<noteq> NULL \<and>
     heap w' = heap w + {#Frames s'#} + mset (map start (FramesArray s')) \<and>
     events w' = events w @ events_since w w' \<and>
     mallocs (events_since w w') = replicate 4 bufferSize"
proof -
  assume a: "InitUserp bufferSize s w = Some (Inr (), s', w')"
  then obtain r w1 p w2 where
    rq: "xioctl (FileDescriptor s) VIDIOC_REQBUFS
           (RequestBuffers \<lparr>count' = 4, rtype = V4L2_BUF_TYPE_VIDEO_CAPTURE,
              rmemory = V4L2_MEMORY_USERPTR\<rparr>) w = Some (Inr r, w1)" and
    ca: "calloc_call 4 w1 = Some (p, w2)" and p: "p \<noteq> NULL" and
    lp: "InitUserp_loop bufferSize
           (s\<lparr>Frames := p, FramesArray := zeroed p 4, BufferCount := 0\<rparr>) w2
         = Some (Inr (), s', w')"
    by (auto simp: InitUserp_def Let_def fail_def
        split: Option.bind_splits sum.splits if_splits)
  let ?s0 = "s\<lparr>Frames := p, FramesArray := zeroed p 4, BufferCount := 0\<rparr>"
  from xioctl_SomeD [OF rq] obtain n rest where
    w1: "w1 = w\<lparr>script := rest,
            events := events w @ replicate n (Ioctl (FileDescriptor s) VIDIOC_REQBUFS
                (RequestBuffers \<lparr>count' = 4, rtype = V4L2_BUF_TYPE_VIDEO_CAPTURE,
                   rmemory = V4L2_MEMORY_USERPTR\<rparr>), Fails EINTR)
              @ [(Ioctl (FileDescriptor s) VIDIOC_REQBUFS
                (RequestBuffers \<lparr>count' = 4, rtype = V4L2_BUF_TYPE_VIDEO_CAPTURE,
                   rmemory = V4L2_MEMORY_USERPTR\<rparr>), Fills r)]\<rparr>"
    by auto
  from calloc_call_SomeD [OF ca] p obtain rest2 where
    w2: "w2 = w1\<lparr>script := rest2, events := events w1 @ [(Calloc 4, Pointer p)],
             heap := add_mset p (heap w1)\<rparr>"
    by auto
  have "BufferCount ?s0 \<le> 4" "length (FramesArray ?s0) = 4"
    using p by (simp_all add: zeroed_def)
  from InitUserp_loop_success [OF lp this] obtain es where
    l: "BufferCount s' = 4" "length (FramesArray s') = 4"
       "s' = ?s0\<lparr>FramesArray := FramesArray s', BufferCount := 4\<rparr>"
       "\<forall>fb\<in>set (FramesArray s'). length' fb = bufferSize \<and> start fb \<noteq> NULL"
       "heap w' = heap w2 + mset (map start (FramesArray s'))"
       "events w' = events w2 @ es" "mallocs es = replicate 4 bufferSize"
    by auto
  have fr: "Frames s' = p" by (subst l(3)) simp
  let ?es = "replicate n (Ioctl (FileDescriptor s) VIDIOC_REQBUFS
                (RequestBuffers \<lparr>count' = 4, rtype = V4L2_BUF_TYPE_VIDEO_CAPTURE,
                   rmemory = V4L2_MEMORY_USERPTR\<rparr>), Fails EINTR)
              @ [(Ioctl (FileDescriptor s) VIDIOC_REQBUFS
                (RequestBuffers \<lparr>count' = 4, rtype = V4L2_BUF_TYPE_VIDEO_CAPTURE,
                   rmemory = V4L2_MEMORY_USERPTR\<rparr>), Fills r), (Calloc 4, Pointer p)] @ es"
  have ev: "events w' = events w @ ?es" using l(6) w1 w2 by simp
  then have since: "events_since w w' = ?es" by (simp add: events_since_def)
  have "mallocs ?es = replicate 4 bufferSize" using l(7) by simp
  moreover have "heap w' = heap w + {#Frames s'#} + mset (map start (FramesArray s'))"
    using l(5) w1 w2 fr by simp
  ultimately show ?thesis
    using l(1,2,4) fr p ev unfolding since by simp
qed

theorem InitUserp_four_buffers_witness:
  "\<exists>s' w'. InitUserp 614400 (fresh\<lparr>IOMethod := IO_METHOD_USERPTR, FileDescriptor := 3\<rparr>)
       (blank [Fills (RequestBuffers \<lparr>count' = 1, rtype = V4L2_BUF_TYPE_VIDEO_CAPTURE,
                  rmemory = V4L2_MEMORY_USERPTR\<rparr>),
               Pointer 0x1000, Pointer 0x2000, Pointer 0x3000, Pointer 0x4000, Pointer 0x5000])
       = Some (Inr (), s', w') \<and>
     BufferCount s' = 4 \<and> length (FramesArray s') = 4 \<and>
     heap w' = {#0x1000, 0x2000, 0x3000, 0x4000, 0x5000#} \<and>
     mallocs (events w') = replicate 4 614400"
proof -
  let ?s = "fresh\<lparr>IOMethod := IO_METHOD_USERPTR, FileDescriptor := 3\<rparr>"
  let ?w = "blank [Fills (RequestBuffers \<lparr>count' = 1, rtype = V4L2_BUF_TYPE_VIDEO_CAPTURE,
                  rmemory = V4L2_MEMORY_USERPTR\<rparr>),
               Pointer 0x1000, Pointer 0x2000, Pointer 0x3000, Pointer 0x4000, Pointer 0x5000]"
  have "\<exists>s' w'. InitUserp 614400 ?s ?w = Some (Inr (), s', w') \<and>
      Frames s' = 0x1000 \<and> map start (FramesArray s') = [0x2000, 0x3000, 0x4000, 0x5000]"
    by (simp add: userp_defs)
  then obtain s' w' where ev: "InitUserp 614400 ?s ?w = Some (Inr (), s', w')"
    and fr: "Frames s' = 0x1000" "map start (FramesArray s') = [0x2000, 0x3000, 0x4000, 0x5000]"
    by (elim exE conjE)
  from InitUserp_four_buffers [OF ev] fr
  have "BufferCount s' = 4 \<and> length (FramesArray s') = 4 \<and>
     heap w' = {#0x1000, 0x2000, 0x3000, 0x4000, 0x5000#} \<and>
     mallocs (events w') = replicate 4 614400"
    by (simp add: blank_def events_since_def)
  with ev show ?thesis by blast
qed

lemma init_failure_simps [simp]:
  "\<not> init_failure (c, Fails EINTR)"
  "init_failure (Ioctl fd rq a, Fails e) = ((rq = VIDIOC_REQBUFS \<or> rq = VIDIOC_QUERYBUF) \<and> e \<noteq> EINTR)"
  "init_failure (Ioctl fd rq a, Fills x) =
     (rq = VIDIOC_REQBUFS \<and> (case x of RequestBuffers req \<Rightarrow> count' req < 2 | _ \<Rightarrow> False))"
  "\<not> init_failure (Mmap l fd off, y)"
  "init_failure (Calloc n, Pointer p) = (p = NULL)"
  by (auto simp: init_failure_def request_fails_def too_few_granted_def container_fails_def
      split: call.splits answer.splits arg.splits)

lemma mmap_calls_simps [simp]:
  "mmap_calls [] = []"
  "mmap_calls (xs @ ys) = mmap_calls xs @ mmap_calls ys"
  "mmap_calls ((Mmap l fd off, y) # es) = (Mmap l fd off, y) # mmap_calls es"
  "mmap_calls ((Ioctl fd rq a, y) # es) = mmap_calls es"
  "mmap_calls ((Calloc n, y) # es) = mmap_calls es"
  by (simp_all add: mmap_calls_def)

lemma mmap_calls_replicate [simp]: "mmap_calls (replicate n (Ioctl fd rq a, y)) = []"
  by (induction n) simp_all

lemma mmap_failures_simps [simp]:
  "mmap_failures [] = []"
  "mmap_failures (xs @ ys) = mmap_failures xs @ mmap_failures ys"
  "mmap_failures ((Mmap l fd off, Fails e) # es) = e # mmap_failures es"
  "mmap_failures ((Mmap l fd off, Pointer p) # es) = mmap_failures es"
  "mmap_failures ((Ioctl fd rq a, y) # es) = mmap_failures es"
  "mmap_failures ((Calloc n, y) # es) = mmap_failures es"
  by (simp_all add: mmap_failures_def List.map_filter_def)

lemma mmap_failures_replicate [simp]: "mmap_failures (replicate n (Ioctl fd rq a, y)) = []"
  by (induction n) simp_all

lemma mmap_failures_Cons: "mmap_failures (ev # es) = mmap_failures [ev] @ mmap_failures es"
  by (simp add: mmap_failures_def List.map_filter_def)

lemma no_failure_replicate [simp]: "\<not> list_ex init_failure (replicate n (c, Fails EINTR))"
  by (simp add: list_ex_iff)

lemma InitMmap_loop_outcome:
  "InitMmap_loop n s w = Some (r, s', w') \<Longrightarrow>
     BufferCount s \<le> n \<Longrightarrow> length (FramesArray s) = n \<Longrightarrow>
     (\<exists>es ls. events w' = events w @ es \<and> logged w' = logged w @ ls \<and>
        ((\<exists>e. r = Inl e) \<longleftrightarrow> list_ex init_failure es) \<and>
        list_all (\<lambda>e. MmapFailed e \<in> set ls) (mmap_failures es) \<and>
        (r = Inr () \<longrightarrow> BufferCount s' = n \<and> length (FramesArray s') = n \<and>
           length (mmap_calls es) = n - BufferCount s))"
proof (induction k \<equiv> "n - BufferCount s" arbitrary: s w)
  case 0
  then have "\<not> BufferCount s < n" by simp
  with "0.prems" have "r = Inr ()" "s' = s" "w' = w" "BufferCount s = n"
    by (auto simp: InitMmap_loop_done)
  with "0.prems" show ?case by simp
next
  case (Suc k)
  then have lt: "BufferCount s < n" by simp
  let ?q = "Ioctl (FileDescriptor s) VIDIOC_QUERYBUF
         (Buffer \<lparr>index = BufferCount s, btype = V4L2_BUF_TYPE_VIDEO_CAPTURE,
            memory = V4L2_MEMORY_MMAP, blength = 0, m_offset = 0, m_userptr = 0\<rparr>)"
  from Suc.prems(1) lt show ?case
  proof (cases rule: InitMmap_loop_step)
    case (query_fails e w1)
    from xioctl_SomeD [OF query_fails(1)] obtain m rest where
      w1: "e \<noteq> EINTR" "w1 = w\<lparr>script := rest,
            events := events w @ replicate m (?q, Fails EINTR) @ [(?q, Fails e)]\<rparr>"
      by auto
    show ?thesis
      apply (rule exI [of _ "replicate m (?q, Fails EINTR) @ [(?q, Fails e)]"])
      apply (rule exI [of _ "[IoctlFailed VIDIOC_QUERYBUF e]"])
      apply (simp add: query_fails(2,3,4) w1 LOG_ERROR_def)
      done
  next
    case (mapped buf w1 m w2 s1)
    let ?i = "BufferCount s"
    let ?s2 = "s1\<lparr>BufferCount := ?i + 1\<rparr>"
    let ?w3 = "case m of Inl e \<Rightarrow> LOG_ERROR (MmapFailed e) w2 | Inr p \<Rightarrow> w2"
    from store_frame_SomeD [OF mapped(3)]
    have s1: "length (FramesArray s1) = length (FramesArray s)" "BufferCount s1 = BufferCount s"
      by auto
    from xioctl_SomeD [OF mapped(1)] obtain j rest where
      w1: "w1 = w\<lparr>script := rest,
            events := events w @ replicate j (?q, Fails EINTR) @ [(?q, Fills (Buffer buf))]\<rparr>"
      by auto
    let ?mm = "Mmap (blength buf) (FileDescriptor s) (m_offset buf)"
    let ?lm = "case m of Inl e \<Rightarrow> [MmapFailed e] | Inr p \<Rightarrow> []"
    have "\<exists>a. events ?w3 = events w1 @ [(?mm, a)] \<and> logged ?w3 = logged w1 @ ?lm \<and>
         list_all (\<lambda>e. MmapFailed e \<in> set ?lm) (mmap_failures [(?mm, a)])"
    proof (cases m)
      case (Inl e)
      with mmap_call_SomeD [OF mapped(2)] show ?thesis
        by (auto simp: LOG_ERROR_def)
    next
      case (Inr p)
      with mmap_call_SomeD [OF mapped(2)] show ?thesis
        by auto
    qed
    then obtain a where
      w3: "events ?w3 = events w1 @ [(?mm, a)]" "logged ?w3 = logged w1 @ ?lm"
          "list_all (\<lambda>e. MmapFailed e \<in> set ?lm) (mmap_failures [(?mm, a)])"
      by (elim exE conjE)
    have k: "k = n - BufferCount ?s2" using Suc.hyps(2) by simp
    have le: "BufferCount ?s2 \<le> n" using lt by simp
    have len: "length (FramesArray ?s2) = n" using Suc.prems(3) s1 by simp
    from Suc.hyps(1) [OF k mapped(4) le len] obtain es ls where
      ih: "events w' = events ?w3 @ es" "logged w' = logged ?w3 @ ls"
          "(\<exists>e. r = Inl e) \<longleftrightarrow> list_ex init_failure es"
          "list_all (\<lambda>e. MmapFailed e \<in> set ls) (mmap_failures es)"
          "r = Inr () \<longrightarrow> BufferCount s' = n \<and> length (FramesArray s') = n \<and>
             length (mmap_calls es) = n - BufferCount ?s2"
      by (elim exE conjE)
    let ?es = "replicate j (?q, Fails EINTR) @ [(?q, Fills (Buffer buf)), (?mm, a)] @ es"
    let ?ls = "?lm @ ls"
    have 1: "events w' = events w @ ?es" using ih(1) w3(1) w1 by simp
    have 2: "logged w' = logged w @ ?ls" using ih(2) w3(2) w1 by simp
    have 3: "(\<exists>e. r = Inl e) \<longleftrightarrow> list_ex init_failure ?es"
      using ih(3) by simp
    have 4: "list_all (\<lambda>e. MmapFailed e \<in> set ?ls) (mmap_failures ?es)"
    proof -
      have "mmap_failures ?es = mmap_failures [(?mm, a)] @ mmap_failures es"
        by (simp add: mmap_failures_Cons [of "(?mm, a)" es])
      then show ?thesis
        using ih(4) w3(3) by (auto simp: list_all_iff)
    qed
    have 5: "r = Inr () \<longrightarrow> BufferCount s' = n \<and> length (FramesArray s') = n \<and>
           length (mmap_calls ?es) = n - BufferCount s"
      using ih(5) lt s1 by auto
    show ?thesis
      by (rule exI [of _ ?es], rule exI [of _ ?ls], intro conjI 1 2 3 4 5)
  qed
qed

lemma InitMmap_outcome:
  assumes "InitMmap s w = Some (r, s', w')"
  shows "\<exists>es ls. events w' = events w @ es \<and> logged w' = logged w @ ls \<and>
        ((\<exists>e. r = Inl e) \<longleftrightarrow> list_ex init_failure es) \<and>
        list_all (\<lambda>e. MmapFailed e \<in> set ls) (mmap_failures es) \<and>
        (r = Inr () \<longrightarrow> 2 \<le> BufferCount s' \<and> length (FramesArray s') = BufferCount s' \<and>
           length (mmap_calls es) = BufferCount s' \<and>
           (\<exists>c a req. (c, Fills (RequestBuffers req)) \<in> set es \<and>
              c = Ioctl (FileDescriptor s) VIDIOC_REQBUFS a \<and> count' req = BufferCount s'))"
proof -
  let ?rq = "Ioctl (FileDescriptor s) VIDIOC_REQBUFS
         (RequestBuffers \<lparr>count' = 4, rtype = V4L2_BUF_TYPE_VIDEO_CAPTURE,
            rmemory = V4L2_MEMORY_MMAP\<rparr>)"
  from assms obtain r1 w1 where
    x: "xioctl (FileDescriptor s) VIDIOC_REQBUFS
         (RequestBuffers \<lparr>count' = 4, rtype = V4L2_BUF_TYPE_VIDEO_CAPTURE,
            rmemory = V4L2_MEMORY_MMAP\<rparr>) w = Some (r1, w1)"
    by (auto simp: InitMmap_def split: Option.bind_splits)
  from xioctl_SomeD [OF x] obtain n rest where
    w1: "r1 \<noteq> Inl EINTR"
        "w1 = w\<lparr>script := rest,
            events := events w @ replicate n (?rq, Fails EINTR) @ [(?rq, answer_of r1)]\<rparr>"
    by auto
  show ?thesis
  proof (cases r1)
    case (Inl e)
    with assms x have "r = Inl (IoctlFailed VIDIOC_REQBUFS e)"
        "w' = LOG_ERROR (IoctlFailed VIDIOC_REQBUFS e) w1"
      by (auto simp: InitMmap_def fail_def)
    with w1 Inl show ?thesis
      apply -
      apply (rule exI [of _ "replicate n (?rq, Fails EINTR) @ [(?rq, Fails e)]"])
      apply (rule exI [of _ "[IoctlFailed VIDIOC_REQBUFS e]"])
      apply (simp add: LOG_ERROR_def)
      done
  next
    case (Inr a)
    with assms x obtain req where a: "a = RequestBuffers req"
      by (auto simp: InitMmap_def split: arg.splits)
    show ?thesis
    proof (cases "count' req < 2")
      case True
      with assms x Inr a have "r = Inl InsufficientBuffers"
          "w' = LOG_ERROR InsufficientBuffers w1"
        by (auto simp: InitMmap_def fail_def)
      with w1 Inr a True show ?thesis
        apply -
        apply (rule exI [of _ "replicate n (?rq, Fails EINTR) @ [(?rq, Fills (RequestBuffers req))]"])
        apply (rule exI [of _ "[InsufficientBuffers]"])
        apply (simp add: LOG_ERROR_def)
        done
    next
      case False
      with assms x Inr a obtain p w2 where
        ca: "calloc_call (count' req) w1 = Some (p, w2)"
        by (auto simp: InitMmap_def split: Option.bind_splits)
      from calloc_call_SomeD [OF ca] obtain rest2 where
        w2: "events w2 = events w1 @ [(Calloc (count' req), Pointer p)]" "logged w2 = logged w1"
        by auto
      show ?thesis
      proof (cases "p = NULL")
        case True
        with assms x Inr a False ca have "r = Inl OutOfMemory" "w' = LOG_ERROR OutOfMemory w2"
          by (auto simp: InitMmap_def fail_def Let_def)
        with w1 w2 Inr a True show ?thesis
          apply -
          apply (rule exI [of _ "replicate n (?rq, Fails EINTR) @
              [(?rq, Fills (RequestBuffers req)), (Calloc (count' req), Pointer NULL)]"])
          apply (rule exI [of _ "[OutOfMemory]"])
          apply (simp add: LOG_ERROR_def)
          done
      next
        case nn: False
        let ?s0 = "s\<lparr>Frames := p, FramesArray := zeroed p (count' req), BufferCount := 0\<rparr>"
        from assms x Inr a False ca nn have
          lp: "InitMmap_loop (count' req) ?s0 w2 = Some (r, s', w')"
          by (auto simp: InitMmap_def Let_def)
        have "BufferCount ?s0 \<le> count' req" "length (FramesArray ?s0) = count' req"
          using nn by (simp_all add: zeroed_def)
        from InitMmap_loop_outcome [OF lp this] obtain es ls where
          l: "events w' = events w2 @ es" "logged w' = logged w2 @ ls"
             "(\<exists>e. r = Inl e) \<longleftrightarrow> list_ex init_failure es"
             "list_all (\<lambda>e. MmapFailed e \<in> set ls) (mmap_failures es)"
             "r = Inr () \<longrightarrow> BufferCount s' = count' req \<and> length (FramesArray s') = count' req \<and>
                length (mmap_calls es) = count' req - BufferCount ?s0"
          by (elim exE conjE)
        let ?es = "replicate n (?rq, Fails EINTR) @
              [(?rq, Fills (RequestBuffers req)), (Calloc (count' req), Pointer p)] @ es"
        have 1: "events w' = events w @ ?es" using l(1) w1 w2 Inr a by simp
        have 2: "logged w' = logged w @ ls" using l(2) w1 w2 by simp
        have 3: "(\<exists>e. r = Inl e) \<longleftrightarrow> list_ex init_failure ?es"
          using l(3) False nn by simp
        have 4: "list_all (\<lambda>e. MmapFailed e \<in> set ls) (mmap_failures ?es)"
          using l(4) by simp
        have 5: "r = Inr () \<longrightarrow> 2 \<le> BufferCount s' \<and> length (FramesArray s') = BufferCount s' \<and>
           length (mmap_calls ?es) = BufferCount s' \<and>
           (\<exists>c a req. (c, Fills (RequestBuffers req)) \<in> set ?es \<and>
              c = Ioctl (FileDescriptor s) VIDIOC_REQBUFS a \<and> count' req = BufferCount s')"
          using l(5) False by auto
        show ?thesis
          by (rule exI [of _ ?es], rule exI [of _ ls], intro conjI 1 2 3 4 5)
      qed
    qed
  qed
qed

lemma buffer_reply_simps:
  "buffer_answers (k, buf, m) =
     replicate k (Fails EINTR) @
       [Fills (Buffer buf), case m of Inl e \<Rightarrow> Fails e | Inr p \<Rightarrow> Pointer p]"
  "frame_of (k, buf, m) =
     \<lparr>start = (case m of Inl e \<Rightarrow> MAP_FAILED | Inr p \<Rightarrow> p), length' = blength buf\<rparr>"
  "mappable (k, buf, m) = (m \<noteq> Inr MAP_FAILED)"
  "mapping_logs [] = []"
  "mapping_logs ((k, buf, m) # bs) =
     (case m of Inl e \<Rightarrow> [MmapFailed e] | Inr p \<Rightarrow> []) @ mapping_logs bs"
  by (simp_all add: buffer_answers_def frame_of_def mappable_def mapping_logs_def)

lemma InitMmap_loop_prefix:
  "script w = concat (map buffer_answers bs) @ rest \<Longrightarrow>
   BufferCount s + length bs \<le> n \<Longrightarrow> length (FramesArray s) = n \<Longrightarrow>
   list_all mappable bs \<Longrightarrow>
   \<exists>w1. InitMmap_loop n s w =
          InitMmap_loop n
            (s\<lparr>FramesArray := take (BufferCount s) (FramesArray s) @ map frame_of bs @
                  drop (BufferCount s + length bs) (FramesArray s),
               BufferCount := BufferCount s + length bs\<rparr>) w1 \<and>
        script w1 = rest \<and> logged w1 = logged w @ mapping_logs bs"
proof (induction bs arbitrary: s w)
  case Nil
  then show ?case
    by (intro exI [of _ w]) (simp add: buffer_reply_simps)
next
  case (Cons b bs)
  obtain k buf m where b: "b = (k, buf, m)" by (cases b)
  let ?i = "BufferCount s"
  let ?fd = "FileDescriptor s"
  let ?q = "Buffer \<lparr>index = ?i, btype = V4L2_BUF_TYPE_VIDEO_CAPTURE,
              memory = V4L2_MEMORY_MMAP, blength = 0, m_offset = 0, m_userptr = 0\<rparr>"
  let ?ma = "case m of Inl e \<Rightarrow> Fails e | Inr p \<Rightarrow> Pointer p"
  let ?tail = "concat (map buffer_answers bs) @ rest"
  let ?fb = "frame_of b"
  have lt: "?i < n" using Cons.prems(2) by simp
  have mp: "m \<noteq> Inr MAP_FAILED" "list_all mappable bs"
    using Cons.prems(4) b by (simp_all add: buffer_reply_simps)
  have sc: "script w = replicate k (Fails EINTR) @ answer_of (Inr (Buffer buf)) # ?ma # ?tail"
    using Cons.prems(1) b by (simp add: buffer_reply_simps)
  let ?wq = "w\<lparr>script := ?ma # ?tail,
               events := events w @ replicate k (Ioctl ?fd VIDIOC_QUERYBUF ?q, Fails EINTR)
                           @ [(Ioctl ?fd VIDIOC_QUERYBUF ?q, Fills (Buffer buf))]\<rparr>"
  have x: "xioctl ?fd VIDIOC_QUERYBUF ?q w = Some (Inr (Buffer buf), ?wq)"
    using xioctl_returns [OF sc, of ?fd VIDIOC_QUERYBUF ?q] by simp
  have "\<exists>w2. mmap_call (blength buf) ?fd (m_offset buf) ?wq = Some (m, w2) \<and>
          script w2 = ?tail \<and> logged w2 = logged w"
    using mp(1) by (cases m) (auto simp: mmap_call_def syscall_def)
  then obtain w2 where
    mm: "mmap_call (blength buf) ?fd (m_offset buf) ?wq = Some (m, w2)"
        "script w2 = ?tail" "logged w2 = logged w"
    by (elim exE conjE)
  let ?w3 = "case m of Inl e \<Rightarrow> LOG_ERROR (MmapFailed e) w2 | Inr p \<Rightarrow> w2"
  let ?s1 = "s\<lparr>FramesArray := (FramesArray s)[?i := ?fb]\<rparr>"
  let ?s2 = "?s1\<lparr>BufferCount := ?i + 1\<rparr>"
  have fb: "?fb = \<lparr>start = (case m of Inl e \<Rightarrow> MAP_FAILED | Inr p \<Rightarrow> p), length' = blength buf\<rparr>"
    using b by (simp add: buffer_reply_simps)
  have sf: "store_frame ?i
      \<lparr>start = (case m of Inl e \<Rightarrow> MAP_FAILED | Inr p \<Rightarrow> p), length' = blength buf\<rparr> s = Some ?s1"
    using lt Cons.prems(3) by (simp add: store_frame_def fb)
  have step: "InitMmap_loop n s w = InitMmap_loop n ?s2 ?w3"
    by (subst InitMmap_loop.simps) (simp add: lt x mm(1) sf)
  have w3: "script ?w3 = ?tail" "logged ?w3 = logged w @ mapping_logs [b]"
    using mm(2,3) b by (simp_all add: LOG_ERROR_def buffer_reply_simps split: sum.splits)
  have pre: "BufferCount ?s2 + length bs \<le> n" "length (FramesArray ?s2) = n"
    using Cons.prems(2,3) by simp_all
  from Cons.IH [OF w3(1) pre mp(2)] obtain w1 where
    ih: "InitMmap_loop n ?s2 ?w3 =
          InitMmap_loop n
            (?s2\<lparr>FramesArray := take (BufferCount ?s2) (FramesArray ?s2) @ map frame_of bs @
                  drop (BufferCount ?s2 + length bs) (FramesArray ?s2),
               BufferCount := BufferCount ?s2 + length bs\<rparr>) w1"
        "script w1 = rest" "logged w1 = logged ?w3 @ mapping_logs bs"
    by (elim exE conjE)
  have tk: "take (BufferCount ?s2) (FramesArray ?s2) = take ?i (FramesArray s) @ [?fb]"
    using lt Cons.prems(3) by (simp add: take_Suc_conv_app_nth)
  have dr: "drop (BufferCount ?s2 + length bs) (FramesArray ?s2) =
      drop (?i + length (b # bs)) (FramesArray s)"
    by simp
  have se: "?s2\<lparr>FramesArray := take (BufferCount ?s2) (FramesArray ?s2) @ map frame_of bs @
                  drop (BufferCount ?s2 + length bs) (FramesArray ?s2),
               BufferCount := BufferCount ?s2 + length bs\<rparr> =
        s\<lparr>FramesArray := take ?i (FramesArray s) @ map frame_of (b # bs) @
                  drop (?i + length (b # bs)) (FramesArray s),
               BufferCount := ?i + length (b # bs)\<rparr>"
    unfolding tk dr by simp
  have lg: "logged w1 = logged w @ mapping_logs (b # bs)"
    using ih(3) w3(2) b by (simp add: buffer_reply_simps)
  show ?case
    using step ih(1) [unfolded se] ih(2) lg by (intro exI [of _ w1]) simp
qed

lemma InitMmap_enters_loop:
  assumes "p \<noteq> NULL" "2 \<le> count' req"
    "script w = replicate k (Fails EINTR) @ Fills (RequestBuffers req) # Pointer p # tail"
  shows "\<exists>w2. InitMmap s w =
           InitMmap_loop (count' req)
             (s\<lparr>Frames := p, FramesArray := replicate (count' req) \<lparr>start = NULL, length' = 0\<rparr>,
                BufferCount := 0\<rparr>) w2 \<and>
         script w2 = tail \<and> logged w2 = logged w"
proof -
  let ?fd = "FileDescriptor s"
  let ?q = "RequestBuffers \<lparr>count' = 4, rtype = V4L2_BUF_TYPE_VIDEO_CAPTURE,
              rmemory = V4L2_MEMORY_MMAP\<rparr>"
  let ?w1 = "w\<lparr>script := Pointer p # tail,
               events := events w @ replicate k (Ioctl ?fd VIDIOC_REQBUFS ?q, Fails EINTR)
                           @ [(Ioctl ?fd VIDIOC_REQBUFS ?q, Fills (RequestBuffers req))]\<rparr>"
  have sc: "script w = replicate k (Fails EINTR) @ answer_of (Inr (RequestBuffers req)) #
      Pointer p # tail"
    using assms(3) by simp
  have x: "xioctl ?fd VIDIOC_REQBUFS ?q w = Some (Inr (RequestBuffers req), ?w1)"
    using xioctl_returns [OF sc, of ?fd VIDIOC_REQBUFS ?q] by simp
  let ?w2 = "?w1\<lparr>script := tail, events := events ?w1 @ [(Calloc (count' req), Pointer p)],
               heap := add_mset p (heap ?w1)\<rparr>"
  have ca: "calloc_call (count' req) ?w1 = Some (p, ?w2)"
    using assms(1) by (simp add: calloc_call_def syscall_def)
  have "InitMmap s w =
           InitMmap_loop (count' req)
             (s\<lparr>Frames := p, FramesArray := replicate (count' req) \<lparr>start = NULL, length' = 0\<rparr>,
                BufferCount := 0\<rparr>) ?w2"
    using assms(1,2) by (simp add: InitMmap_def x ca Let_def zeroed_def del: calloc_call_def)
  then show ?thesis
    by (intro exI [of _ ?w2]) simp
qed

lemma InitMmap_returns_success:
  assumes "list_all mappable bs" "p \<noteq> NULL" "2 \<le> count' req" "length bs = count' req"
    "script w = replicate k (Fails EINTR) @ Fills (RequestBuffers req) # Pointer p #
       concat (map buffer_answers bs) @ rest"
  shows "\<exists>w1. InitMmap s w =
           Some (Inr (), s\<lparr>Frames := p, FramesArray := map frame_of bs,
                            BufferCount := length bs\<rparr>, w1) \<and>
         script w1 = rest \<and> logged w1 = logged w @ mapping_logs bs"
proof -
  let ?n = "count' req"
  let ?s0 = "s\<lparr>Frames := p, FramesArray := replicate ?n \<lparr>start = NULL, length' = 0\<rparr>,
                BufferCount := 0\<rparr>"
  from InitMmap_enters_loop [where s = s, OF assms(2,3,5)] obtain w2 where
    e: "InitMmap s w = InitMmap_loop ?n ?s0 w2"
       "script w2 = concat (map buffer_answers bs) @ rest" "logged w2 = logged w"
    by (elim exE conjE)
  have pre: "BufferCount ?s0 + length bs \<le> ?n" "length (FramesArray ?s0) = ?n"
    using assms(4) by simp_all
  from InitMmap_loop_prefix [OF e(2) pre assms(1)] obtain w1 where
    l: "InitMmap_loop ?n ?s0 w2 =
          InitMmap_loop ?n
            (?s0\<lparr>FramesArray := take (BufferCount ?s0) (FramesArray ?s0) @ map frame_of bs @
                  drop (BufferCount ?s0 + length bs) (FramesArray ?s0),
               BufferCount := BufferCount ?s0 + length bs\<rparr>) w1"
       "script w1 = rest" "logged w1 = logged w2 @ mapping_logs bs"
    by (elim exE conjE)
  have se: "?s0\<lparr>FramesArray := take (BufferCount ?s0) (FramesArray ?s0) @ map frame_of bs @
                  drop (BufferCount ?s0 + length bs) (FramesArray ?s0),
               BufferCount := BufferCount ?s0 + length bs\<rparr> =
        s\<lparr>Frames := p, FramesArray := map frame_of bs, BufferCount := length bs\<rparr>"
    using assms(4) by simp
  have "InitMmap s w =
      Some (Inr (), s\<lparr>Frames := p, FramesArray := map frame_of bs, BufferCount := length bs\<rparr>, w1)"
    unfolding e(1) l(1) se using assms(4) by (simp add: InitMmap_loop_done)
  with l(2,3) e(3) show ?thesis
    by (intro exI [of _ w1]) simp
qed

lemma InitMmap_query_refused:
  assumes "list_all mappable bs" "p \<noteq> NULL" "2 \<le> count' req" "length bs < count' req"
    "e \<noteq> EINTR"
    "script w = replicate k (Fails EINTR) @ Fills (RequestBuffers req) # Pointer p #
       concat (map buffer_answers bs) @ replicate j (Fails EINTR) @ Fails e # rest"
  shows "\<exists>s1 w1. InitMmap s w = Some (Inl (IoctlFailed VIDIOC_QUERYBUF e), s1, w1) \<and>
         BufferCount s1 = length bs \<and> take (length bs) (FramesArray s1) = map frame_of bs \<and>
         script w1 = rest \<and>
         logged w1 = logged w @ mapping_logs bs @ [IoctlFailed VIDIOC_QUERYBUF e]"
proof -
  let ?n = "count' req"
  let ?s0 = "s\<lparr>Frames := p, FramesArray := replicate ?n \<lparr>start = NULL, length' = 0\<rparr>,
                BufferCount := 0\<rparr>"
  let ?tail = "replicate j (Fails EINTR) @ Fails e # rest"
  from InitMmap_enters_loop [where s = s, OF assms(2,3,6)] obtain w2 where
    e: "InitMmap s w = InitMmap_loop ?n ?s0 w2"
       "script w2 = concat (map buffer_answers bs) @ ?tail" "logged w2 = logged w"
    by (elim exE conjE)
  have pre: "BufferCount ?s0 + length bs \<le> ?n" "length (FramesArray ?s0) = ?n"
    using assms(4) by simp_all
  let ?s1 = "?s0\<lparr>FramesArray := take (BufferCount ?s0) (FramesArray ?s0) @ map frame_of bs @
                  drop (BufferCount ?s0 + length bs) (FramesArray ?s0),
               BufferCount := BufferCount ?s0 + length bs\<rparr>"
  from InitMmap_loop_prefix [OF e(2) pre assms(1)] obtain w1 where
    l: "InitMmap_loop ?n ?s0 w2 = InitMmap_loop ?n ?s1 w1"
       "script w1 = ?tail" "logged w1 = logged w2 @ mapping_logs bs"
    by (elim exE conjE)
  let ?fd = "FileDescriptor ?s1"
  let ?q = "Buffer \<lparr>index = BufferCount ?s1, btype = V4L2_BUF_TYPE_VIDEO_CAPTURE,
              memory = V4L2_MEMORY_MMAP, blength = 0, m_offset = 0, m_userptr = 0\<rparr>"
  let ?w3 = "w1\<lparr>script := rest,
               events := events w1 @ replicate j (Ioctl ?fd VIDIOC_QUERYBUF ?q, Fails EINTR)
                           @ [(Ioctl ?fd VIDIOC_QUERYBUF ?q, Fails e)]\<rparr>"
  have sc: "script w1 = replicate j (Fails EINTR) @ answer_of (Inl e) # rest"
    using l(2) by simp
  have x: "xioctl ?fd VIDIOC_QUERYBUF ?q w1 = Some (Inl e, ?w3)"
    using xioctl_returns [OF sc, of ?fd VIDIOC_QUERYBUF ?q] assms(5) by simp
  have lt: "BufferCount ?s1 < ?n" using assms(4) by simp
  have "InitMmap_loop ?n ?s1 w1 =
      Some (Inl (IoctlFailed VIDIOC_QUERYBUF e), ?s1, LOG_ERROR (IoctlFailed VIDIOC_QUERYBUF e) ?w3)"
    by (subst InitMmap_loop.simps) (simp only: lt if_True x option.case prod.case sum.case fail_def)
  then have r: "InitMmap s w =
      Some (Inl (IoctlFailed VIDIOC_QUERYBUF e), ?s1, LOG_ERROR (IoctlFailed VIDIOC_QUERYBUF e) ?w3)"
    unfolding e(1) l(1) .
  show ?thesis
    apply (rule exI [of _ ?s1], rule exI [of _ "LOG_ERROR (IoctlFailed VIDIOC_QUERYBUF e) ?w3"])
    apply (simp only: r)
    apply (simp add: LOG_ERROR_def l(3) e(3))
    done
qed

lemma InitMmap_refused:
  assumes "e \<noteq> EINTR" "script w = replicate k (Fails EINTR) @ Fails e # rest"
  shows "\<exists>w1. InitMmap s w = Some (Inl (IoctlFailed VIDIOC_REQBUFS e), s, w1) \<and>
         script w1 = rest \<and> logged w1 = logged w @ [IoctlFailed VIDIOC_REQBUFS e]"
proof -
  let ?fd = "FileDescriptor s"
  let ?q = "RequestBuffers \<lparr>count' = 4, rtype = V4L2_BUF_TYPE_VIDEO_CAPTURE,
              rmemory = V4L2_MEMORY_MMAP\<rparr>"
  let ?w1 = "w\<lparr>script := rest,
               events := events w @ replicate k (Ioctl ?fd VIDIOC_REQBUFS ?q, Fails EINTR)
                           @ [(Ioctl ?fd VIDIOC_REQBUFS ?q, Fails e)]\<rparr>"
  have sc: "script w = replicate k (Fails EINTR) @ answer_of (Inl e) # rest"
    using assms(2) by simp
  have x: "xioctl ?fd VIDIOC_REQBUFS ?q w = Some (Inl e, ?w1)"
    using xioctl_returns [OF sc, of ?fd VIDIOC_REQBUFS ?q] assms(1) by simp
  show ?thesis
    by (simp add: InitMmap_def x fail_def LOG_ERROR_def)
qed

lemma InitMmap_too_few:
  assumes "count' req < 2"
    "script w = replicate k (Fails EINTR) @ Fills (RequestBuffers req) # rest"
  shows "\<exists>w1. InitMmap s w = Some (Inl InsufficientBuffers, s, w1) \<and>
         script w1 = rest \<and> logged w1 = logged w @ [InsufficientBuffers]"
proof -
  let ?fd = "FileDescriptor s"
  let ?q = "RequestBuffers \<lparr>count' = 4, rtype = V4L2_BUF_TYPE_VIDEO_CAPTURE,
              rmemory = V4L2_MEMORY_MMAP\<rparr>"
  let ?w1 = "w\<lparr>script := rest,
               events := events w @ replicate k (Ioctl ?fd VIDIOC_REQBUFS ?q, Fails EINTR)
                           @ [(Ioctl ?fd VIDIOC_REQBUFS ?q, Fills (RequestBuffers req))]\<rparr>"
  have sc: "script w = replicate k (Fails EINTR) @ answer_of (Inr (RequestBuffers req)) # rest"
    using assms(2) by simp
  have x: "xioctl ?fd VIDIOC_REQBUFS ?q w = Some (Inr (RequestBuffers req), ?w1)"
    using xioctl_returns [OF sc, of ?fd VIDIOC_REQBUFS ?q] by simp
  show ?thesis
    using assms(1) by (simp add: InitMmap_def x fail_def LOG_ERROR_def)
qed

lemma InitMmap_no_container:
  assumes "2 \<le> count' req"
    "script w = replicate k (Fails EINTR) @ Fills (RequestBuffers req) # Pointer NULL # rest"
  shows "\<exists>w1. InitMmap s w =
           Some (Inl OutOfMemory, s\<lparr>Frames := NULL, FramesArray := []\<rparr>, w1) \<and>
         script w1 = rest \<and> logged w1 = logged w @ [OutOfMemory]"
proof -
  let ?fd = "FileDescriptor s"
  let ?q = "RequestBuffers \<lparr>count' = 4, rtype = V4L2_BUF_TYPE_VIDEO_CAPTURE,
              rmemory = V4L2_MEMORY_MMAP\<rparr>"
  let ?w1 = "w\<lparr>script := Pointer NULL # rest,
               events := events w @ replicate k (Ioctl ?fd VIDIOC_REQBUFS ?q, Fails EINTR)
                           @ [(Ioctl ?fd VIDIOC_REQBUFS ?q, Fills (RequestBuffers req))]\<rparr>"
  have sc: "script w = replicate k (Fails EINTR) @ answer_of (Inr (RequestBuffers req)) #
      Pointer NULL # rest"
    using assms(2) by simp
  have x: "xioctl ?fd VIDIOC_REQBUFS ?q w = Some (Inr (RequestBuffers req), ?w1)"
    using xioctl_returns [OF sc, of ?fd VIDIOC_REQBUFS ?q] by simp
  show ?thesis
    using assms(1)
    by (simp add: InitMmap_def x fail_def LOG_ERROR_def calloc_call_def syscall_def zeroed_def)
qed

lemmas reply_defs = buffer_reply_simps blank_def granted_def filled_def fresh_def
  vtkPlusV4L2VideoSource_def NULL_def MAP_FAILED_def

text \<open>
  C6. The kernel-mapped initialisation fails exactly when its \<^verbatim>\<open>VIDIOC_REQBUFS\<close>
  fails, or the kernel grants fewer than two buffers, or a \<^verbatim>\<open>VIDIOC_QUERYBUF\<close> fails,
  or the container cannot be allocated. Every \<^verbatim>\<open>mmap\<close> that fails is logged and is not
  among these causes; when the initialisation succeeds, \<^verbatim>\<open>mmap\<close> was called once for
  each of the granted buffers, whether or not some of the calls failed, and
  \<open>BufferCount\<close> is the granted count.

  And the initialisation does return, whatever the kernel answers. When the kernel
  grants \<open>count' req\<close> buffers, at least two, the container is allocated and every
  buffer query is answered (after any number of interruptions), it returns success
  whichever of the mappings fail: the session holds one frame buffer for each granted
  buffer, \<^verbatim>\<open>MAP_FAILED\<close> where the mapping failed, \<open>BufferCount\<close> is the granted count, and
  the log has grown by exactly one message for each failed mapping, in order. In the
  four other cases it returns the failure of that case: the request for buffers fails,
  fewer than two buffers are granted, the container is not allocated, or, after any
  number of buffers were set up, a buffer query fails.
\<close>

theorem InitMmap_fails_exactly_when:
  "(InitMmap s w = Some (r, s', w') \<longrightarrow>
     events w' = events w @ events_since w w' \<and> logged w' = logged w @ logged_since w w' \<and>
     ((\<exists>e. r = Inl e) \<longleftrightarrow>
        (\<exists>ev\<in>set (events_since w w').
           request_fails VIDIOC_REQBUFS ev \<or> too_few_granted ev \<or>
           request_fails VIDIOC_QUERYBUF ev \<or> container_fails ev)) \<and>
     (\<forall>e\<in>set (mmap_failures (events_since w w')). MmapFailed e \<in> set (logged_since w w')) \<and>
     (r = Inr () \<longrightarrow>
        2 \<le> BufferCount s' \<and> length (FramesArray s') = BufferCount s' \<and>
        length (mmap_calls (events_since w w')) = BufferCount s' \<and>
        (\<exists>c a req. (c, Fills (RequestBuffers req)) \<in> set (events_since w w') \<and>
           c = Ioctl (FileDescriptor s) VIDIOC_REQBUFS a \<and> count' req = BufferCount s'))) \<and>
   (list_all mappable bs \<and> p \<noteq> NULL \<and> 2 \<le> count' req \<and> length bs = count' req \<and>
    script w = replicate k (Fails EINTR) @ Fills (RequestBuffers req) # Pointer p #
                 concat (map buffer_answers bs) @ rest \<longrightarrow>
      (\<exists>w1. InitMmap s w =
               Some (Inr (), s\<lparr>Frames := p, FramesArray := map frame_of bs,
                                BufferCount := length bs\<rparr>, w1) \<and>
             script w1 = rest \<and> logged w1 = logged w @ mapping_logs bs)) \<and>
   (e \<noteq> EINTR \<and> script w = replicate k (Fails EINTR) @ Fails e # rest \<longrightarrow>
      (\<exists>w1. InitMmap s w = Some (Inl (IoctlFailed VIDIOC_REQBUFS e), s, w1) \<and>
             script w1 = rest \<and> logged w1 = logged w @ [IoctlFailed VIDIOC_REQBUFS e])) \<and>
   (count' req < 2 \<and>
    script w = replicate k (Fails EINTR) @ Fills (RequestBuffers req) # rest \<longrightarrow>
      (\<exists>w1. InitMmap s w = Some (Inl InsufficientBuffers, s, w1) \<and>
             script w1 = rest \<and> logged w1 = logged w @ [InsufficientBuffers])) \<and>
   (2 \<le> count' req \<and>
    script w = replicate k (Fails EINTR) @ Fills (RequestBuffers req) # Pointer NULL # rest \<longrightarrow>
      (\<exists>w1. InitMmap s w =
               Some (Inl OutOfMemory, s\<lparr>Frames := NULL, FramesArray := []\<rparr>, w1) \<and>
             script w1 = rest \<and> logged w1 = logged w @ [OutOfMemory])) \<and>
   (list_all mappable bs \<and> p \<noteq> NULL \<and> 2 \<le> count' req \<and> length bs < count' req \<and>
    e \<noteq> EINTR \<and>
    script w = replicate k (Fails EINTR) @ Fills (RequestBuffers req) # Pointer p #
                 concat (map buffer_answers bs) @ replicate j (Fails EINTR) @ Fails e # rest \<longrightarrow>
      (\<exists>s1 w1. InitMmap s w = Some (Inl (IoctlFailed VIDIOC_QUERYBUF e), s1, w1) \<and>
             BufferCount s1 = length bs \<and> take (length bs) (FramesArray s1) = map frame_of bs \<and>
             script w1 = rest \<and>
             logged w1 = logged w @ mapping_logs bs @ [IoctlFailed VIDIOC_QUERYBUF e]))"
proof (intro conjI)
  show "InitMmap s w = Some (r, s', w') \<longrightarrow>
     events w' = events w @ events_since w w' \<and> logged w' = logged w @ logged_since w w' \<and>
     ((\<exists>e. r = Inl e) \<longleftrightarrow>
        (\<exists>ev\<in>set (events_since w w').
           request_fails VIDIOC_REQBUFS ev \<or> too_few_granted ev \<or>
           request_fails VIDIOC_QUERYBUF ev \<or> container_fails ev)) \<and>
     (\<forall>e\<in>set (mmap_failures (events_since w w')). MmapFailed e \<in> set (logged_since w w')) \<and>
     (r = Inr () \<longrightarrow>
        2 \<le> BufferCount s' \<and> length (FramesArray s') = BufferCount s' \<and>
        length (mmap_calls (events_since w w')) = BufferCount s' \<and>
        (\<exists>c a req. (c, Fills (RequestBuffers req)) \<in> set (events_since w w') \<and>
           c = Ioctl (FileDescriptor s) VIDIOC_REQBUFS a \<and> count' req = BufferCount s'))"
  proof
    assume "InitMmap s w = Some (r, s', w')"
    from InitMmap_outcome [OF this] obtain es ls where
      o: "events w' = events w @ es" "logged w' = logged w @ ls"
         "(\<exists>e. r = Inl e) \<longleftrightarrow> list_ex init_failure es"
         "list_all (\<lambda>e. MmapFailed e \<in> set ls) (mmap_failures es)"
         "r = Inr () \<longrightarrow> 2 \<le> BufferCount s' \<and> length (FramesArray s') = BufferCount s' \<and>
             length (mmap_calls es) = BufferCount s' \<and>
             (\<exists>c a req. (c, Fills (RequestBuffers req)) \<in> set es \<and>
                c = Ioctl (FileDescriptor s) VIDIOC_REQBUFS a \<and> count' req = BufferCount s')"
      by (elim exE conjE)
    have es: "events_since w w' = es" using o(1) by (simp add: events_since_def)
    have ls: "logged_since w w' = ls" using o(2) by (simp add: logged_since_def)
    show "events w' = events w @ events_since w w' \<and> logged w' = logged w @ logged_since w w' \<and>
     ((\<exists>e. r = Inl e) \<longleftrightarrow>
        (\<exists>ev\<in>set (events_since w w').
           request_fails VIDIOC_REQBUFS ev \<or> too_few_granted ev \<or>
           request_fails VIDIOC_QUERYBUF ev \<or> container_fails ev)) \<and>
     (\<forall>e\<in>set (mmap_failures (events_since w w')). MmapFailed e \<in> set (logged_since w w')) \<and>
     (r = Inr () \<longrightarrow>
        2 \<le> BufferCount s' \<and> length (FramesArray s') = BufferCount s' \<and>
        length (mmap_calls (events_since w w')) = BufferCount s' \<and>
        (\<exists>c a req. (c, Fills (RequestBuffers req)) \<in> set (events_since w w') \<and>
           c = Ioctl (FileDescriptor s) VIDIOC_REQBUFS a \<and> count' req = BufferCount s'))"
      unfolding es ls using o
      by (simp add: list_ex_iff list_all_iff init_failure_def)
  qed
qed (blast intro: InitMmap_returns_success InitMmap_refused InitMmap_too_few
       InitMmap_no_container InitMmap_query_refused)+

theorem InitMmap_fails_exactly_when_witness:
  "(\<exists>w'. InitMmap (fresh\<lparr>IOMethod := IO_METHOD_MMAP, FileDescriptor := 3\<rparr>)
        (blank [granted 2, Pointer 0x1000, Fills (Buffer (filled 0)), Fails (ERRNO 12),
                Fills (Buffer (filled 1)), Pointer 0x8000])
        = Some (Inr (), fresh\<lparr>IOMethod := IO_METHOD_MMAP, FileDescriptor := 3, Frames := 0x1000,
                  FramesArray := [\<lparr>start = MAP_FAILED, length' = 614400\<rparr>,
                                  \<lparr>start = 0x8000, length' = 614400\<rparr>],
                  BufferCount := 2\<rparr>, w') \<and>
      script w' = [] \<and> logged w' = [MmapFailed (ERRNO 12)] \<and>
      length (mmap_calls (events w')) = 2)
   \<and> (\<exists>w'. InitMmap (fresh\<lparr>IOMethod := IO_METHOD_MMAP, FileDescriptor := 3\<rparr>)
        (blank [Fails EINTR, Fails EIO])
        = Some (Inl (IoctlFailed VIDIOC_REQBUFS EIO),
                fresh\<lparr>IOMethod := IO_METHOD_MMAP, FileDescriptor := 3\<rparr>, w') \<and>
      logged w' = [IoctlFailed VIDIOC_REQBUFS EIO])
   \<and> (\<exists>w'. InitMmap (fresh\<lparr>IOMethod := IO_METHOD_MMAP, FileDescriptor := 3\<rparr>)
        (blank [granted 1])
        = Some (Inl InsufficientBuffers,
                fresh\<lparr>IOMethod := IO_METHOD_MMAP, FileDescriptor := 3\<rparr>, w') \<and>
      logged w' = [InsufficientBuffers])
   \<and> (\<exists>w'. InitMmap (fresh\<lparr>IOMethod := IO_METHOD_MMAP, FileDescriptor := 3\<rparr>)
        (blank [granted 2, Pointer NULL])
        = Some (Inl OutOfMemory,
                fresh\<lparr>IOMethod := IO_METHOD_MMAP, FileDescriptor := 3\<rparr>, w') \<and>
      logged w' = [OutOfMemory])
   \<and> (\<exists>s' w'. InitMmap (fresh\<lparr>IOMethod := IO_METHOD_MMAP, FileDescriptor := 3\<rparr>)
        (blank [granted 2, Pointer 0x1000, Fills (Buffer (filled 0)), Pointer 0x7000, Fails EIO])
        = Some (Inl (IoctlFailed VIDIOC_QUERYBUF EIO), s', w') \<and>
      BufferCount s' = 1 \<and> logged w' = [IoctlFailed VIDIOC_QUERYBUF EIO])"
proof -
  let ?s = "fresh\<lparr>IOMethod := IO_METHOD_MMAP, FileDescriptor := 3\<rparr>"
  let ?req = "\<lparr>count' = 2, rtype = V4L2_BUF_TYPE_VIDEO_CAPTURE, rmemory = V4L2_MEMORY_MMAP\<rparr>"
  let ?req1 = "\<lparr>count' = 1, rtype = V4L2_BUF_TYPE_VIDEO_CAPTURE, rmemory = V4L2_MEMORY_MMAP\<rparr>"
  let ?w = "blank [granted 2, Pointer 0x1000, Fills (Buffer (filled 0)), Fails (ERRNO 12),
                Fills (Buffer (filled 1)), Pointer 0x8000]"
  let ?bs = "[(0, filled 0, Inl (ERRNO 12)), (0, filled 1, Inr 0x8000)]"
  let ?s' = "fresh\<lparr>IOMethod := IO_METHOD_MMAP, FileDescriptor := 3, Frames := 0x1000,
                  FramesArray := [\<lparr>start = MAP_FAILED, length' = 614400\<rparr>,
                                  \<lparr>start = 0x8000, length' = 614400\<rparr>],
                  BufferCount := 2\<rparr>"
  have "\<exists>w'. InitMmap ?s ?w = Some (Inr (), ?s', w') \<and> script w' = [] \<and>
      logged w' = [MmapFailed (ERRNO 12)]"
    using InitMmap_fails_exactly_when
      [where s = ?s and w = ?w and bs = ?bs and p = "0x1000" and req = ?req and k = 0
         and rest = "[]", THEN conjunct2, THEN conjunct1]
    by (simp add: reply_defs numeral_2_eq_2 [symmetric])
  then obtain w' where
    a: "InitMmap ?s ?w = Some (Inr (), ?s', w')" "script w' = []"
       "logged w' = [MmapFailed (ERRNO 12)]"
    by (elim exE conjE)
  have "events_since ?w w' = events w'"
    by (simp add: events_since_def blank_def)
  with InitMmap_fails_exactly_when
      [where s = ?s and w = ?w and r = "Inr ()" and s' = ?s' and w' = w', THEN conjunct1]
    a(1)
  have 1: "length (mmap_calls (events w')) = 2"
    by simp
  have 2: "\<exists>w'. InitMmap ?s (blank [Fails EINTR, Fails EIO])
        = Some (Inl (IoctlFailed VIDIOC_REQBUFS EIO), ?s, w') \<and>
      script w' = [] \<and> logged w' = [IoctlFailed VIDIOC_REQBUFS EIO]"
    using InitMmap_fails_exactly_when
      [where s = ?s and w = "blank [Fails EINTR, Fails EIO]" and e = EIO and k = 1
         and rest = "[]", THEN conjunct2, THEN conjunct2, THEN conjunct1]
    by (simp add: reply_defs)
  have 3: "\<exists>w'. InitMmap ?s (blank [granted 1]) = Some (Inl InsufficientBuffers, ?s, w') \<and>
      script w' = [] \<and> logged w' = [InsufficientBuffers]"
    using InitMmap_fails_exactly_when
      [where s = ?s and w = "blank [granted 1]" and req = ?req1 and k = 0
         and rest = "[]", THEN conjunct2, THEN conjunct2, THEN conjunct2, THEN conjunct1]
    by (simp add: reply_defs)
  have 4: "\<exists>w'. InitMmap ?s (blank [granted 2, Pointer NULL])
        = Some (Inl OutOfMemory, ?s, w') \<and> script w' = [] \<and> logged w' = [OutOfMemory]"
    using InitMmap_fails_exactly_when
      [where s = ?s and w = "blank [granted 2, Pointer NULL]" and req = ?req and k = 0
         and rest = "[]", THEN conjunct2, THEN conjunct2, THEN conjunct2, THEN conjunct2,
         THEN conjunct1]
    by (simp add: reply_defs)
  have 5: "\<exists>s' w'. InitMmap ?s
        (blank [granted 2, Pointer 0x1000, Fills (Buffer (filled 0)), Pointer 0x7000, Fails EIO])
        = Some (Inl (IoctlFailed VIDIOC_QUERYBUF EIO), s', w') \<and>
      BufferCount s' = 1 \<and>
      take 1 (FramesArray s') = [\<lparr>start = 0x7000, length' = 614400\<rparr>] \<and>
      script w' = [] \<and> logged w' = [IoctlFailed VIDIOC_QUERYBUF EIO]"
    using InitMmap_fails_exactly_when
      [where s = ?s and w = "blank [granted 2, Pointer 0x1000, Fills (Buffer (filled 0)),
           Pointer 0x7000, Fails EIO]" and bs = "[(0, filled 0, Inr 0x7000)]"
         and p = "0x1000" and req = ?req and k = 0 and j = 0 and e = EIO
         and rest = "[]", THEN conjunct2, THEN conjunct2, THEN conjunct2, THEN conjunct2,
         THEN conjunct2]
    by (simp add: reply_defs)
  from a 1 2 3 4 5 show ?thesis by blast
qed

section \<open>Connecting\<close>

text \<open>
  C4. The claim asks that a connection refused for want of the capability of the
  transport mode fails and leaves the device handle invalid, that is closed. The source
  returns \<^verbatim>\<open>PLUS_FAIL\<close> right after the message, without \<^verbatim>\<open>close\<close> and without setting
  \<open>FileDescriptor\<close> back to \<open>-1\<close>: here for the direct-read mode on a device that
  streams but does not read, and for the kernel-mapped mode on a device that reads but
  does not stream. In both runs the descriptor 3 stays open and stays in the session.
\<close>

theorem unsupported_transport_leaves_descriptor_open:
  "InternalConnect False fresh
      (blank [CharDevice True, Returns 3, Fills (Capability 0x04000001)])
     = Some (Inl UnsupportedTransport, fresh\<lparr>FileDescriptor := 3\<rparr>,
         (blank [])\<lparr>events := [(Stat ''/dev/video0'', CharDevice True),
                               (Open ''/dev/video0'', Returns 3),
                               (Ioctl 3 VIDIOC_QUERYCAP (Capability 0), Fills (Capability 0x04000001))],
                    logged := [UnsupportedTransport],
                    descriptors := {#3#}\<rparr>)
   \<and> InternalConnect False (fresh\<lparr>IOMethod := IO_METHOD_MMAP\<rparr>)
      (blank [CharDevice True, Returns 3, Fills (Capability 0x01000001)])
     = Some (Inl UnsupportedTransport, fresh\<lparr>IOMethod := IO_METHOD_MMAP, FileDescriptor := 3\<rparr>,
         (blank [])\<lparr>events := [(Stat ''/dev/video0'', CharDevice True),
                               (Open ''/dev/video0'', Returns 3),
                               (Ioctl 3 VIDIOC_QUERYCAP (Capability 0), Fills (Capability 0x01000001))],
                    logged := [UnsupportedTransport],
                    descriptors := {#3#}\<rparr>)"
  by (simp add: connect_defs)

text \<open>
  C2. The claim asks that each successful update cycle hands one frame to the sink. No
  member function of the source adds a frame to the output channel: a cycle in
  direct-read mode that succeeds calls \<^verbatim>\<open>select\<close> and \<^verbatim>\<open>read\<close>, counts the frame,
  and leaves the sink as it was.
\<close>

theorem successful_cycle_delivers_no_frame:
  "map_option (\<lambda>(r, s', w'). (r, FrameNumber s', map fst (events w'), sink w'))
     (InternalUpdate reading (blank [Returns 1, Returns 614400]))
   = Some (Inr (), 1, [Select 3 2, Read 3 0x2000 614400], [])"
  by (simp add: cycle_stream_defs)

(*TAIL*)

end
